theory Spec2Isabelle
  imports Complex_Main "HOL-Library.Log_Nat"
begin

section \<open>Latent estimation: the confident joint and its calibration\<close>

text \<open>
  A shallow embedding of \<^verbatim>\<open>cleanlab/latent_estimation.py\<close>.

  Labels are non-negative integers (\<open>nat\<close>); a 2-d array is the list of its rows, and an
  array with no rows is taken to have no columns. A finite float is a rational number
  (\<open>rat\<close>); where numpy may produce a non-finite value the type is \<open>rat option\<close> (\<open>fl\<close>), and
  \<open>None\<close> stands for \<open>nan\<close> and for the infinities, which arise from a division by zero
  only; a comparison with \<open>None\<close> is false, as it is with \<open>nan\<close>.

  The floating-point arithmetic is a parameter of every function that computes with floats,
  a record \<open>arith\<close>: \<open>rnd\<close> rounds the exact result of each operation, and \<open>summ\<close> adds the
  elements of an array of floats (\<open>np.sum\<close>, with the order of the additions that numpy
  chooses for the array). Two arithmetics are defined: \<open>exact\<close>, which does not round, and
  \<open>doubles\<close>, which rounds every result to the nearest binary float of 64 bits and adds the
  elements of an array from left to right. Overflow and subnormal numbers are not modelled.
  numpy may add the elements of an array in another order; the statements below that hold
  for every arithmetic do not depend on it, and the arrays that are added where \<open>doubles\<close>
  is evaluated have the same sum in every order.
\<close>

datatype error =
    IndexError            \<comment> \<open>column index or boolean mask out of range\<close>
  | ValueError            \<comment> \<open>shapes that do not broadcast, argmax along an empty axis\<close>
  | TypeError             \<comment> \<open>\<open>float()\<close> of an array with more than one element\<close>
  | UFuncTypeError        \<comment> \<open>an update in place that would cast floats to integers\<close>
  | AssertionError        \<comment> \<open>a failed \<open>assert\<close>\<close>
  | FloatToIntError       \<comment> \<open>\<open>int()\<close> or \<open>round()\<close> of a non-finite float\<close>
  | UnboundLocalError     \<comment> \<open>a local variable read before assignment\<close>

type_synonym fl = "rat option"
type_synonym matrix = "rat list list"

record arith =
  rnd :: "rat \<Rightarrow> rat"
  summ :: "fl list \<Rightarrow> fl"

subsection \<open>Array primitives of numpy\<close>

definition ncols :: "'a list list \<Rightarrow> nat" where
  "ncols m = (case m of [] \<Rightarrow> 0 | r # _ \<Rightarrow> length r)"

text \<open>\<open>m.T\<close>\<close>
definition mat_T :: "'a list list \<Rightarrow> 'a list list" where
  "mat_T m = map (\<lambda>j. map (\<lambda>r. r ! j) m) [0..<ncols m]"

text \<open>Broadcasting of two 1-d arrays under a binary operation.\<close>
definition broadcast :: "('a \<Rightarrow> 'b \<Rightarrow> 'c) \<Rightarrow> 'a list \<Rightarrow> 'b list \<Rightarrow> error + 'c list" where
  "broadcast f xs ys =
     (if length xs = length ys then Inr (map2 f xs ys)
      else if length ys = 1 then Inr (map (\<lambda>x. f x (hd ys)) xs)
      else if length xs = 1 then Inr (map (f (hd xs)) ys)
      else Inl ValueError)"

text \<open>Broadcasting of a 2-d array against a 1-d array (along the last axis).\<close>
definition broadcast_rows ::
  "('a \<Rightarrow> 'b \<Rightarrow> 'c) \<Rightarrow> 'a list list \<Rightarrow> 'b list \<Rightarrow> error + 'c list list" where
  "broadcast_rows f m ys =
     (if ncols m = length ys then Inr (map (\<lambda>r. map2 f r ys) m)
      else if length ys = 1 then Inr (map (map (\<lambda>x. f x (hd ys))) m)
      else if ncols m = 1 then Inr (map (\<lambda>r. map (f (hd r)) ys) m)
      else Inl ValueError)"

text \<open>\<open>np.argmax\<close> of a row: the first index of a largest element.\<close>
definition argmax :: "'a::linorder list \<Rightarrow> nat" where
  "argmax xs = length (takeWhile (\<lambda>y. y \<noteq> fold max (tl xs) (hd xs)) xs)"

text \<open>\<open>m.argmax(axis = 1)\<close>, which raises when the array has no columns; an array with no
  rows has none.\<close>
definition argmax_rows :: "'a::linorder list list \<Rightarrow> error + nat list" where
  "argmax_rows m = (if ncols m = 0 then Inl ValueError else Inr (map argmax m))"

text \<open>\<open>np.bincount\<close>: one count for every value from 0 to the largest label.\<close>
definition bincount :: "nat list \<Rightarrow> nat list" where
  "bincount s = map (count_list s) [0..<(if s = [] then 0 else Suc (fold max s 0))]"

text \<open>\<open>np.unique\<close>\<close>
definition unique :: "nat list \<Rightarrow> nat list" where
  "unique s = sort (remdups s)"

text \<open>\<open>a[mask]\<close> for a boolean mask of the length of \<open>a\<close>\<close>
definition select :: "'a list \<Rightarrow> bool list \<Rightarrow> 'a list" where
  "select xs keep = map fst (filter snd (zip xs keep))"

text \<open>\<open>round\<close> of Python 3 and \<open>np.round\<close>: to the nearest integer, a tie to the even one.\<close>
definition py_round :: "rat \<Rightarrow> int" where
  "py_round x =
     (let f = \<lfloor>x\<rfloor>; d = x - of_int f
      in if d < 1 / 2 then f else if 1 / 2 < d then f + 1 else if even f then f else f + 1)"

text \<open>\<open>int\<close> of a finite float: truncation towards zero.\<close>
definition py_int :: "rat \<Rightarrow> int" where
  "py_int x = (if 0 \<le> x then \<lfloor>x\<rfloor> else \<lceil>x\<rceil>)"

text \<open>The sum of an array of 64-bit integers wraps around.\<close>
definition wrap_int64 :: "int \<Rightarrow> int" where
  "wrap_int64 n = (n + 2 ^ 63) mod 2 ^ 64 - 2 ^ 63"

subsection \<open>Floating-point operations\<close>

text \<open>The exact result of an operation on two floats, either of which may be non-finite. A
  division by zero gives a non-finite value.\<close>
definition fl_lift :: "(rat \<Rightarrow> rat \<Rightarrow> rat) \<Rightarrow> fl \<Rightarrow> fl \<Rightarrow> fl" where
  "fl_lift f a b = (case a of None \<Rightarrow> None | Some x \<Rightarrow> (case b of None \<Rightarrow> None | Some y \<Rightarrow> Some (f x y)))"

definition fl_div :: "fl \<Rightarrow> fl \<Rightarrow> fl" where
  "fl_div a b = (if b = Some 0 then None else fl_lift (/) a b)"

text \<open>The exact sum of an array.\<close>
definition fl_sum :: "fl list \<Rightarrow> fl" where
  "fl_sum xs = foldr (fl_lift (+)) xs (Some 0)"

text \<open>The operations of the program: the exact result, rounded.\<close>
definition r_lift :: "arith \<Rightarrow> (rat \<Rightarrow> rat \<Rightarrow> rat) \<Rightarrow> fl \<Rightarrow> fl \<Rightarrow> fl" where
  "r_lift ar f a b = map_option (rnd ar) (fl_lift f a b)"

definition r_div :: "arith \<Rightarrow> fl \<Rightarrow> fl \<Rightarrow> fl" where
  "r_div ar a b = map_option (rnd ar) (fl_div a b)"

text \<open>The conversion of an integer to a float.\<close>
definition fl_of_int :: "arith \<Rightarrow> int \<Rightarrow> fl" where
  "fl_of_int ar n = Some (rnd ar (of_int n))"

definition fl_of_nat :: "arith \<Rightarrow> nat \<Rightarrow> fl" where
  "fl_of_nat ar n = Some (rnd ar (of_nat n))"

definition fl_of_int_matrix :: "arith \<Rightarrow> int list list \<Rightarrow> fl list list" where
  "fl_of_int_matrix ar m = map (map (fl_of_int ar)) m"

text \<open>The built-in \<open>sum\<close> of Python: the elements are added to 0 one after the other.\<close>
definition py_sum :: "arith \<Rightarrow> fl list \<Rightarrow> fl" where
  "py_sum ar xs = foldl (r_lift ar (+)) (Some 0) xs"

text \<open>\<open>np.mean\<close> of a 1-d array; the mean of an empty array is \<open>nan\<close>.\<close>
definition mean :: "arith \<Rightarrow> rat list \<Rightarrow> fl" where
  "mean ar xs =
     (if xs = [] then None else r_div ar (summ ar (map Some xs)) (fl_of_nat ar (length xs)))"

subsection \<open>The two arithmetics\<close>

text \<open>The quotient \<open>n / d\<close> of a positive divisor rounded to the nearest integer, a tie to the
  even one.\<close>
definition round_div :: "int \<Rightarrow> int \<Rightarrow> int" where
  "round_div n d =
     (let q = n div d; r = n mod d
      in if 2 * r < d then q else if d < 2 * r then q + 1 else if even q then q else q + 1)"

text \<open>The positive fraction \<open>p / q\<close> rounded to the nearest number \<open>m * 2 ^ (e - 52)\<close> with
  \<open>2 ^ e \<le> p / q < 2 ^ (e + 1)\<close> and \<open>m\<close> an integer of at most 53 bits.\<close>
definition binary64_pq :: "int \<Rightarrow> int \<Rightarrow> rat" where
  "binary64_pq p q =
     (let e0 = bitlen p - bitlen q;
          e = (if (if 0 \<le> e0 then q * 2 ^ nat e0 \<le> p else q \<le> p * 2 ^ nat (- e0))
               then e0 else e0 - 1);
          k = 52 - e;
          m = (if 0 \<le> k then round_div (p * 2 ^ nat k) q else round_div p (q * 2 ^ nat (- k)))
      in if 0 \<le> k then Fract m (2 ^ nat k) else of_int (m * 2 ^ nat (- k)))"

text \<open>Rounding to the nearest binary float of 64 bits, a tie to the even one.\<close>
definition binary64 :: "rat \<Rightarrow> rat" where
  "binary64 x =
     (if x = 0 then 0
      else if 0 < x then binary64_pq (fst (quotient_of x)) (snd (quotient_of x))
      else - binary64_pq (- fst (quotient_of x)) (snd (quotient_of x)))"

definition exact :: arith where
  "exact = \<lparr>rnd = (\<lambda>x. x), summ = fl_sum\<rparr>"

definition doubles :: arith where
  "doubles = \<lparr>rnd = binary64,
              summ = foldl (\<lambda>a b. map_option binary64 (fl_lift (+) a b)) (Some 0)\<rparr>"

subsection \<open>The confusion matrix of scikit-learn\<close>

text \<open>
  \<^verbatim>\<open>sklearn.metrics.confusion_matrix(y_true, y_pred)\<close>, called without \<^verbatim>\<open>labels\<close>: the
  library indexes the matrix by the labels that appear at least once in \<^verbatim>\<open>y_true\<close> or
  \<^verbatim>\<open>y_pred\<close>, in sorted order, and entry \<open>(i, j)\<close> counts the samples whose true label is
  the \<open>i\<close>-th and whose predicted label is the \<open>j\<close>-th of them.
\<close>

definition confusion_matrix :: "nat list \<Rightarrow> nat list \<Rightarrow> int list list" where
  "confusion_matrix y_true y_pred =
     (let labels = unique (y_true @ y_pred)
      in map (\<lambda>a. map (\<lambda>b. int (count_list (zip y_true y_pred) (a, b))) labels) labels)"

subsection \<open>\<^verbatim>\<open>compute_confident_joint\<close>\<close>

text \<open>An element of \<open>thresholds - 1e-6\<close>: the threshold as a float, minus the float nearest
  to \<open>1e-6\<close>.\<close>
definition lowered :: "arith \<Rightarrow> fl \<Rightarrow> fl" where
  "lowered ar t = r_lift ar (-) (map_option (rnd ar) t) (Some (rnd ar (1 / 1000000)))"

text \<open>\<open>p >= v\<close>; a comparison with \<open>nan\<close> is false.\<close>
definition ge_fl :: "rat \<Rightarrow> fl \<Rightarrow> bool" where
  "ge_fl p v = (case v of None \<Rightarrow> False | Some w \<Rightarrow> w \<le> p)"

text \<open>\<open>[np.mean(psx[:,k][s == k]) for k in range(K)]\<close>\<close>
definition default_thresholds :: "arith \<Rightarrow> nat list \<Rightarrow> matrix \<Rightarrow> nat \<Rightarrow> error + fl list" where
  "default_thresholds ar s psx K =
     (if 0 < K \<and> (ncols psx < K \<or> length s \<noteq> length psx) then Inl IndexError
      else Inr (map (\<lambda>k. mean ar (map (\<lambda>(l, row). row ! k)
                                    (filter (\<lambda>(l, row). l = k) (zip s psx))))
                    [0..<K]))"

definition confident_counts ::
  "arith \<Rightarrow> nat list \<Rightarrow> matrix \<Rightarrow> fl list \<Rightarrow> error + int list list" where
  "confident_counts ar s psx thresholds =
     (case broadcast_rows ge_fl psx (map (lowered ar) thresholds) of Inl e \<Rightarrow> Inl e
      | Inr psx_bool \<Rightarrow>
     (let num_confident_bins = map (\<lambda>r. length (filter id r)) psx_bool;
          at_least_one_confident = map (\<lambda>n. 0 < n) num_confident_bins;
          more_than_one_confident = map (\<lambda>n. 1 < n) num_confident_bins
      in case argmax_rows psx of Inl e \<Rightarrow> Inl e
      | Inr psx_argmax \<Rightarrow>
     (case argmax_rows psx_bool of Inl e \<Rightarrow> Inl e
      | Inr confident_argmax \<Rightarrow>
     (let true_label_guess =
            map (\<lambda>(c, a, b). if c then a else b)
              (zip more_than_one_confident (zip psx_argmax confident_argmax))
      in if length s \<noteq> length psx then Inl IndexError
         else (let y_confident = select true_label_guess at_least_one_confident;
                   s_confident = select s at_least_one_confident
               in Inr (mat_T (confusion_matrix y_confident s_confident)))))))"

text \<open>The argument \<open>thresholds\<close> is \<open>None\<close> or the elements of an array, of integers or of
  floats; the function reads them and changes nothing.\<close>
definition compute_confident_joint ::
  "arith \<Rightarrow> nat list \<Rightarrow> matrix \<Rightarrow> nat option \<Rightarrow> fl list option \<Rightarrow> error + int list list" where
  "compute_confident_joint ar s psx K thresholds =
     (let K' = (case K of None \<Rightarrow> length (unique s) | Some k \<Rightarrow> k)
      in case (case thresholds of None \<Rightarrow> default_thresholds ar s psx K' | Some t \<Rightarrow> Inr t) of
           Inl e \<Rightarrow> Inl e
         | Inr thr \<Rightarrow> confident_counts ar s psx thr)"

subsection \<open>\<^verbatim>\<open>calibrate_confident_joint\<close>\<close>

text \<open>\<open>all(calibrated_cj.sum(axis = 1).round().astype(int) == s_counts)\<close>; the integer that
  \<open>astype(int)\<close> makes of a non-finite float is no count.\<close>
definition rounds_to :: "fl \<Rightarrow> nat \<Rightarrow> bool" where
  "rounds_to x c = (case x of None \<Rightarrow> False | Some v \<Rightarrow> py_round v = int c)"

text \<open>The body without its second statement: \<open>s_counts = np.bincount(s)\<close>, the two
  scalings of the matrix of integers that the variable \<open>confident_joint\<close> holds, and the
  two assertions.\<close>
definition calibration :: "arith \<Rightarrow> int list list \<Rightarrow> nat list \<Rightarrow> error + fl list list" where
  "calibration ar confident_joint s =
     (let s_counts = bincount s;
          row_sums = map (\<lambda>r. fl_of_int ar (sum_list r)) confident_joint
      in case broadcast_rows (r_div ar) (mat_T (fl_of_int_matrix ar confident_joint)) row_sums of
           Inl e \<Rightarrow> Inl e
      | Inr quot \<Rightarrow>
     (case broadcast_rows (r_lift ar (*)) quot (map (fl_of_nat ar) s_counts) of
        Inl e \<Rightarrow> Inl e
      | Inr scaled \<Rightarrow>
     (let calibrated_cj = mat_T scaled;
          total = summ ar (concat calibrated_cj);
          calibrated_cj =
            map (map (\<lambda>x. r_lift ar (*) (r_div ar x total) (fl_of_nat ar (length s))))
              calibrated_cj
      in case broadcast rounds_to (map (summ ar) calibrated_cj) s_counts of Inl e \<Rightarrow> Inl e
      | Inr checks \<Rightarrow>
         if \<not> list_all id checks then Inl AssertionError
         else (case summ ar (concat calibrated_cj) of None \<Rightarrow> Inl FloatToIntError
               | Some v \<Rightarrow>
                   if int (length s) = py_round v then Inr calibrated_cj
                   else Inl AssertionError))))"

text \<open>The parameter \<open>confident_joint\<close> is overwritten by the second statement of the body,
  whatever it holds.\<close>
definition calibrate_confident_joint ::
  "arith \<Rightarrow> 'a \<Rightarrow> nat list \<Rightarrow> matrix \<Rightarrow> error + fl list list" where
  "calibrate_confident_joint ar confident_joint s psx =
     (case compute_confident_joint ar s psx None None of Inl e \<Rightarrow> Inl e
      | Inr confident_joint \<Rightarrow> calibration ar confident_joint s)"

subsection \<open>\<^verbatim>\<open>estimate_joint\<close>\<close>

text \<open>\<open>float(sum(calibrated_cj))\<close> with the built-in \<open>sum\<close> of Python, which adds the rows of
  a 2-d array to 0: the array of the column sums, of which \<open>float\<close> accepts one element only.\<close>
definition float_of_sum :: "arith \<Rightarrow> fl list list \<Rightarrow> error + fl" where
  "float_of_sum ar m =
     (if m = [] then Inr (Some 0)
      else if ncols m = 1 then Inr (py_sum ar (map hd m))
      else Inl TypeError)"

definition estimate_joint :: "arith \<Rightarrow> 'a \<Rightarrow> nat list \<Rightarrow> matrix \<Rightarrow> error + fl list list" where
  "estimate_joint ar confident_joint s psx =
     (case calibrate_confident_joint ar confident_joint s psx of Inl e \<Rightarrow> Inl e
      | Inr calibrated_cj \<Rightarrow>
     (case float_of_sum ar calibrated_cj of Inl e \<Rightarrow> Inl e
      | Inr d \<Rightarrow> Inr (map (map (\<lambda>x. r_div ar x d)) calibrated_cj)))"

subsection \<open>\<^verbatim>\<open>estimate_confident_joint_from_probabilities\<close>\<close>

text \<open>Modelled from the spec: \<^verbatim>\<open>cleanlab.util.value_counts\<close>, which is not among the sources;
  the spec names it the value counts of the labels, from which the empirical distribution of
  the observed labels is taken: one count for each label that occurs, in ascending order.\<close>
definition value_counts :: "nat list \<Rightarrow> nat list" where
  "value_counts s = map (count_list s) (unique s)"

datatype force_ps = FBool bool | FInt int

text \<open>The truth value of \<open>force_ps\<close> in \<open>if force_ps:\<close>\<close>
fun truthy :: "force_ps \<Rightarrow> bool" where
  "truthy (FBool b) = b"
| "truthy (FInt n) = (n \<noteq> 0)"

text \<open>\<open>sgd_epochs = 5 if force_ps is True else 1\<close>, then
  \<open>if type(force_ps) == int: sgd_epochs = force_ps\<close>\<close>
fun sgd_epochs :: "force_ps \<Rightarrow> int" where
  "sgd_epochs (FBool b) = (if b then 5 else 1)"
| "sgd_epochs (FInt n) = n"

text \<open>\<open>range(n)\<close>\<close>
definition py_range :: "int \<Rightarrow> nat list" where
  "py_range n = [0..<nat n]"

text \<open>An array of one dimension: the type of its elements, and the elements. The arrays are
  kept in a store, by address, so that the array of the caller and a new array are told
  apart; \<open>free\<close> is the first address not in use.\<close>
datatype dtype = Int64 | Float64

type_synonym ndarray = "dtype \<times> fl list"

record heap =
  cells :: "nat \<Rightarrow> ndarray"
  free :: nat

definition new_array :: "ndarray \<Rightarrow> heap \<Rightarrow> nat \<times> heap" where
  "new_array a h = (free h, h\<lparr>cells := (cells h)(free h := a), free := Suc (free h)\<rparr>)"

text \<open>The argument \<open>thresholds\<close>: \<open>None\<close>, a Python list of numbers, or an array, given by
  its address in the store.\<close>
datatype pynum = PyInt int | PyFloat rat

datatype thresholds_arg = NoThresholds | ListThresholds "pynum list" | ArrayThresholds nat

fun is_int :: "pynum \<Rightarrow> bool" where
  "is_int (PyInt n) = True"
| "is_int (PyFloat x) = False"

text \<open>The array that \<open>np.asarray\<close> makes of a list of numbers: of integers when every
  element of the list is one (and there is one), of floats otherwise.\<close>
definition array_of_list :: "arith \<Rightarrow> pynum list \<Rightarrow> ndarray" where
  "array_of_list ar xs =
     (if xs \<noteq> [] \<and> list_all is_int xs
      then (Int64, map (\<lambda>x. case x of PyInt n \<Rightarrow> Some (of_int n) | PyFloat y \<Rightarrow> Some y) xs)
      else (Float64, map (\<lambda>x. case x of PyInt n \<Rightarrow> fl_of_int ar n | PyFloat y \<Rightarrow> Some y) xs))"

text \<open>\<open>joint_ps = confident_joint.sum(axis=1) / float(np.sum(confident_joint))\<close> and
  \<open>thresholds += eta * (joint_ps - ps)\<close>, an update in place: it cannot change the type of the
  elements of \<open>thresholds\<close>, nor its shape. The result is the new contents of the array.\<close>
definition sgd_update :: "arith \<Rightarrow> ndarray \<Rightarrow> fl list list \<Rightarrow> fl list \<Rightarrow> error + ndarray" where
  "sgd_update ar thresholds confident_joint ps =
     (let total = summ ar (concat confident_joint);
          joint_ps = map (\<lambda>r. r_div ar (summ ar r) total) confident_joint;
          eta = Some (1 / 2)
      in case broadcast (r_lift ar (-)) joint_ps ps of Inl e \<Rightarrow> Inl e
      | Inr diff \<Rightarrow>
         (let step = map (r_lift ar (*) eta) diff
          in if fst thresholds = Int64 then Inl UFuncTypeError
             else if length step = length (snd thresholds)
               then Inr (Float64, map2 (r_lift ar (+)) (snd thresholds) step)
             else if length step = 1
               then Inr (Float64, map (\<lambda>t. r_lift ar (+) t (hd step)) (snd thresholds))
             else Inl ValueError))"

text \<open>The loop over \<open>range(sgd_epochs)\<close>: \<open>thresholds\<close> is the array at the address \<open>t\<close>,
  which the update writes, and the last element of \<open>cjs\<close> is the variable
  \<open>confident_joint\<close>.\<close>
fun sgd_loop ::
  "arith \<Rightarrow> nat list \<Rightarrow> matrix \<Rightarrow> nat \<Rightarrow> fl list \<Rightarrow> force_ps \<Rightarrow> nat list \<Rightarrow> nat
     \<Rightarrow> fl list list list \<Rightarrow> heap \<Rightarrow> error + (fl list list list \<times> heap)" where
  "sgd_loop ar s psx K ps force [] t cjs h = Inr (cjs, h)"
| "sgd_loop ar s psx K ps force (sgd_iteration # rest) t cjs h =
     (case compute_confident_joint ar s psx (Some K) (Some (snd (cells h t))) of Inl e \<Rightarrow> Inl e
      | Inr cj \<Rightarrow>
     (case calibrate_confident_joint ar cj s psx of Inl e \<Rightarrow> Inl e
      | Inr confident_joint \<Rightarrow>
         if truthy force
         then (case sgd_update ar (cells h t) confident_joint ps of Inl e \<Rightarrow> Inl e
               | Inr thresholds' \<Rightarrow>
                   sgd_loop ar s psx K ps force rest t (cjs @ [confident_joint])
                     (h\<lparr>cells := (cells h)(t := thresholds')\<rparr>))
         else Inr (cjs @ [confident_joint], h)))"

datatype cj_result = Final "fl list list" | Trace "fl list list list"

text \<open>\<open>np.asarray(thresholds)\<close> is a new array when \<open>thresholds\<close> is a list, and the array
  itself, the same object, when it is an array. The result is the value returned and the
  store after the call.\<close>
definition estimate_confident_joint_from_probabilities ::
  "arith \<Rightarrow> nat list \<Rightarrow> matrix \<Rightarrow> thresholds_arg \<Rightarrow> force_ps \<Rightarrow> bool \<Rightarrow> heap
     \<Rightarrow> error + (cj_result \<times> heap)" where
  "estimate_confident_joint_from_probabilities ar s psx thresholds force
       return_list_of_converging_cj_matrices h =
     (let K = length (unique s);
          ps = map (\<lambda>c. r_div ar (fl_of_nat ar c) (fl_of_nat ar (length s))) (value_counts s)
      in case (case thresholds of
                 NoThresholds \<Rightarrow>
                   (case default_thresholds ar s psx K of Inl e \<Rightarrow> Inl e
                    | Inr t \<Rightarrow> Inr (new_array (Float64, t) h))
               | ListThresholds xs \<Rightarrow> Inr (new_array (array_of_list ar xs) h)
               | ArrayThresholds a \<Rightarrow> Inr (a, h)) of
           Inl e \<Rightarrow> Inl e
         | Inr (t, h1) \<Rightarrow>
        (case sgd_loop ar s psx K ps force (py_range (sgd_epochs force)) t [] h1 of
           Inl e \<Rightarrow> Inl e
         | Inr (cjs, h2) \<Rightarrow>
             if return_list_of_converging_cj_matrices then Inr (Trace cjs, h2)
             else if cjs = [] then Inl UnboundLocalError
             else Inr (Final (last cjs), h2)))"

subsection \<open>\<^verbatim>\<open>num_label_errors\<close>\<close>

text \<open>\<open>m.trace()\<close>: the sum of the diagonal.\<close>
definition trace :: "arith \<Rightarrow> fl list list \<Rightarrow> fl" where
  "trace ar m = summ ar (map (\<lambda>i. m ! i ! i) [0..<min (length m) (ncols m)])"

text \<open>A confident joint supplied by the caller: an array of 64-bit integers, or an array of
  finite floats.\<close>
datatype joint_arg = IntJoint "int list list" | FloatJoint "rat list list"

text \<open>The store of a call that is given no array.\<close>
definition no_arrays :: heap where
  "no_arrays = \<lparr>cells = (\<lambda>a. (Float64, [])), free = 0\<rparr>"

text \<open>The elements of the joint as floats, and \<open>float(np.sum(confident_joint))\<close>.\<close>
definition joint_and_sum ::
  "arith \<Rightarrow> nat list \<Rightarrow> matrix \<Rightarrow> joint_arg option \<Rightarrow> error + (fl list list \<times> fl)" where
  "joint_and_sum ar labels psx confident_joint =
     (case confident_joint of
        None \<Rightarrow>
          (case estimate_confident_joint_from_probabilities ar labels psx NoThresholds
                  (FBool False) False no_arrays of
             Inl e \<Rightarrow> Inl e
           | Inr (Final cj, h) \<Rightarrow> Inr (cj, summ ar (concat cj))
           | Inr (Trace cjs, h) \<Rightarrow> Inl TypeError)
      | Some (IntJoint cj) \<Rightarrow>
          Inr (fl_of_int_matrix ar cj, fl_of_int ar (wrap_int64 (sum_list (concat cj))))
      | Some (FloatJoint cj) \<Rightarrow>
          Inr (map (map Some) cj, summ ar (concat (map (map Some) cj))))"

definition num_label_errors ::
  "arith \<Rightarrow> nat list \<Rightarrow> matrix \<Rightarrow> joint_arg option \<Rightarrow> error + int" where
  "num_label_errors ar labels psx confident_joint =
     (case joint_and_sum ar labels psx confident_joint of Inl e \<Rightarrow> Inl e
      | Inr (cj, whole) \<Rightarrow>
         (let joint = map (map (\<lambda>x. r_div ar x whole)) cj;
              frac_errors = r_lift ar (-) (Some 1) (trace ar joint)
          in case r_lift ar (*) frac_errors (fl_of_nat ar (length labels)) of
               None \<Rightarrow> Inl FloatToIntError
             | Some v \<Rightarrow> Inr (py_int v)))"
subsection \<open>\<^verbatim>\<open>converge_estimates\<close>\<close>

text \<open>The three functions of \<^verbatim>\<open>cleanlab.latent_algebra\<close> are not among the sources and are
  parameters here: \<open>compute_inv_noise_matrix\<close>, \<open>compute_py\<close> and
  \<open>compute_noise_matrix_from_inverse\<close>, each taken with the arguments in the order of its
  call.\<close>
definition converge_estimates ::
  "('v \<Rightarrow> 'm \<Rightarrow> 'v \<Rightarrow> 'm) \<Rightarrow> ('v \<Rightarrow> 'm \<Rightarrow> 'm \<Rightarrow> 'v) \<Rightarrow> ('v \<Rightarrow> 'm \<Rightarrow> 'v \<Rightarrow> 'm)
     \<Rightarrow> 'v \<Rightarrow> 'v \<Rightarrow> 'm \<Rightarrow> 'm \<Rightarrow> int \<Rightarrow> int \<Rightarrow> 'v \<times> 'm \<times> 'm" where
  "converge_estimates compute_inv_noise_matrix compute_py compute_noise_matrix_from_inverse
       ps py noise_matrix inverse_noise_matrix inv_noise_matrix_iterations noise_matrix_iterations =
     fold (\<lambda>j (py, noise_matrix, inverse_noise_matrix).
             (case fold (\<lambda>i (py, inverse_noise_matrix).
                           (let inverse_noise_matrix = compute_inv_noise_matrix py noise_matrix ps;
                                py = compute_py ps noise_matrix inverse_noise_matrix
                            in (py, inverse_noise_matrix)))
                        (py_range inv_noise_matrix_iterations) (py, inverse_noise_matrix) of
                (py, inverse_noise_matrix) \<Rightarrow>
                  (let noise_matrix = compute_noise_matrix_from_inverse ps inverse_noise_matrix py
                   in (py, noise_matrix, inverse_noise_matrix))))
          (py_range noise_matrix_iterations) (py, noise_matrix, inverse_noise_matrix)"

text \<open>The defaults of the two iteration counts.\<close>
definition converge_estimates_default ::
  "('v \<Rightarrow> 'm \<Rightarrow> 'v \<Rightarrow> 'm) \<Rightarrow> ('v \<Rightarrow> 'm \<Rightarrow> 'm \<Rightarrow> 'v) \<Rightarrow> ('v \<Rightarrow> 'm \<Rightarrow> 'v \<Rightarrow> 'm)
     \<Rightarrow> 'v \<Rightarrow> 'v \<Rightarrow> 'm \<Rightarrow> 'm \<Rightarrow> 'v \<times> 'm \<times> 'm" where
  "converge_estimates_default cinv cpy cnm ps py noise_matrix inverse_noise_matrix =
     converge_estimates cinv cpy cnm ps py noise_matrix inverse_noise_matrix 5 3"

section \<open>Reference definitions, from the description of the operations\<close>

subsection \<open>The number of label errors\<close>

definition fl_matrix :: "matrix \<Rightarrow> fl list list" where
  "fl_matrix m = map (map Some) m"

definition rat_trace :: "matrix \<Rightarrow> rat" where
  "rat_trace m = sum_list (map (\<lambda>i. m ! i ! i) [0..<min (length m) (ncols m)])"

definition normalized_joint :: "matrix \<Rightarrow> matrix" where
  "normalized_joint cj = map (map (\<lambda>x. x / sum_list (concat cj))) cj"

text \<open>\<open>round((1 - trace(normalized joint)) * N)\<close>\<close>
definition rounded_errors :: "nat list \<Rightarrow> matrix \<Rightarrow> int" where
  "rounded_errors labels cj =
     py_round ((1 - rat_trace (normalized_joint cj)) * of_nat (length labels))"

text \<open>The float \<open>(1 - trace(joint / whole)) * N\<close>, each operation in the arithmetic \<open>ar\<close>:
  the quotients, the sum of the diagonal, the difference and the product.\<close>
definition error_product :: "arith \<Rightarrow> nat \<Rightarrow> fl list list \<Rightarrow> fl \<Rightarrow> fl" where
  "error_product ar N joint whole =
     r_lift ar (*)
       (r_lift ar (-) (Some 1) (trace ar (map (map (\<lambda>x. r_div ar x whole)) joint)))
       (fl_of_nat ar N)"

text \<open>\<open>int\<close> of a float: a finite one is truncated towards zero, another one raises.\<close>
definition int_of_float :: "fl \<Rightarrow> error + int" where
  "int_of_float x = (case x of None \<Rightarrow> Inl FloatToIntError | Some v \<Rightarrow> Inr (py_int v))"

subsection \<open>The consistency iteration\<close>

text \<open>One inner iteration: the inverse noise matrix from \<open>(py, noise_matrix, ps)\<close>, then
  \<open>py\<close> from \<open>(ps, noise_matrix, inverse_noise_matrix)\<close>.\<close>
definition inner_iteration ::
  "('v \<Rightarrow> 'm \<Rightarrow> 'v \<Rightarrow> 'm) \<Rightarrow> ('v \<Rightarrow> 'm \<Rightarrow> 'm \<Rightarrow> 'v) \<Rightarrow> 'v \<Rightarrow> 'm \<Rightarrow> 'v \<times> 'm \<Rightarrow> 'v \<times> 'm" where
  "inner_iteration cinv cpy ps nm = (\<lambda>(py, im). (cpy ps nm (cinv py nm ps), cinv py nm ps))"

text \<open>One outer iteration: the inner iterations first, then the noise matrix once, from
  \<open>(ps, inverse_noise_matrix, py)\<close>.\<close>
definition outer_iteration ::
  "('v \<Rightarrow> 'm \<Rightarrow> 'v \<Rightarrow> 'm) \<Rightarrow> ('v \<Rightarrow> 'm \<Rightarrow> 'm \<Rightarrow> 'v) \<Rightarrow> ('v \<Rightarrow> 'm \<Rightarrow> 'v \<Rightarrow> 'm)
     \<Rightarrow> 'v \<Rightarrow> nat \<Rightarrow> 'v \<times> 'm \<times> 'm \<Rightarrow> 'v \<times> 'm \<times> 'm" where
  "outer_iteration cinv cpy cnm ps n_inner =
     (\<lambda>(py, nm, im).
        (case (inner_iteration cinv cpy ps nm ^^ n_inner) (py, im) of
           (py', im') \<Rightarrow> (py', cnm ps im' py', im')))"

subsection \<open>The decision rule for one example\<close>

text \<open>The probability \<open>p\<close> reaches the threshold \<open>t\<close> up to the tolerance: \<open>p \<ge> t - 1e-6\<close>,
  in exact arithmetic.\<close>
definition ge_threshold :: "rat \<Rightarrow> fl \<Rightarrow> bool" where
  "ge_threshold p t = (case t of None \<Rightarrow> False | Some v \<Rightarrow> v - 1 / 1000000 \<le> p)"

text \<open>The confident bins of an example: the classes whose probability reaches the threshold
  of the class, up to the tolerance.\<close>
definition confident_bins :: "fl list \<Rightarrow> rat list \<Rightarrow> nat list" where
  "confident_bins thr row = filter (\<lambda>k. ge_threshold (row ! k) (thr ! k)) [0..<length row]"

text \<open>No confident bin: no guess. One: that class. More than one: the argmax of the whole
  row of probabilities.\<close>
definition guess :: "fl list \<Rightarrow> rat list \<Rightarrow> nat option" where
  "guess thr row =
     (case confident_bins thr row of [] \<Rightarrow> None | [k] \<Rightarrow> Some k | _ \<Rightarrow> Some (argmax row))"

text \<open>The pairs (observed label, guessed label) of the examples that have a guess.\<close>
definition confident_pairs :: "nat list \<Rightarrow> matrix \<Rightarrow> fl list \<Rightarrow> (nat \<times> nat) list" where
  "confident_pairs s psx thr =
     concat (map (\<lambda>(l, row). case guess thr row of None \<Rightarrow> [] | Some g \<Rightarrow> [(l, g)]) (zip s psx))"

subsection \<open>Square tables\<close>

text \<open>The \<open>K\<close> by \<open>K\<close> array whose entry \<open>(i, j)\<close> is \<open>f i j\<close>.\<close>
definition tab :: "nat \<Rightarrow> (nat \<Rightarrow> nat \<Rightarrow> 'a) \<Rightarrow> 'a list list" where
  "tab K f = map (\<lambda>i. map (\<lambda>j. f i j) [0..<K]) [0..<K]"

subsection \<open>The default thresholds\<close>

text \<open>The mean self-confidence of each class, and the pairs of the decision rule for
  these thresholds, in exact arithmetic.\<close>
definition class_thresholds :: "nat list \<Rightarrow> matrix \<Rightarrow> nat \<Rightarrow> fl list" where
  "class_thresholds s psx K =
     map (\<lambda>k. mean exact (map (\<lambda>(l, row). row ! k) (filter (\<lambda>(l, row). l = k) (zip s psx))))
       [0..<K]"

definition default_pairs :: "nat list \<Rightarrow> matrix \<Rightarrow> nat \<Rightarrow> (nat \<times> nat) list" where
  "default_pairs s psx K = confident_pairs s psx (class_thresholds s psx K)"

subsection \<open>Noiseless probabilities\<close>

text \<open>The row of an example that is given probability 1 for its own label and 0 for every
  other class.\<close>
definition one_hot :: "nat \<Rightarrow> nat \<Rightarrow> rat list" where
  "one_hot K l = map (\<lambda>k. if k = l then 1 else 0) [0..<K]"

subsection \<open>Python literals\<close>

text \<open>A list of float literals, a nested one, and an array of floats made of float
  literals.\<close>
definition floats :: "rat list \<Rightarrow> rat list" where
  "floats xs = map binary64 xs"

definition float_rows :: "rat list list \<Rightarrow> matrix" where
  "float_rows m = map floats m"

definition float_array :: "rat list \<Rightarrow> ndarray" where
  "float_array xs = (Float64, map Some (floats xs))"

section \<open>Properties\<close>

subsection \<open>The exact arithmetic\<close>

lemma rnd_exact: "rnd exact x = x"
  by (simp add: exact_def)

lemma summ_exact: "summ exact = fl_sum"
  by (simp add: exact_def)

lemma r_lift_exact: "r_lift exact = fl_lift"
  by (intro ext) (simp add: r_lift_def exact_def option.map_ident)

lemma r_div_exact: "r_div exact = fl_div"
  by (intro ext) (simp add: r_div_def exact_def option.map_ident)

lemma fl_of_int_exact: "fl_of_int exact = (\<lambda>n. Some (of_int n))"
  by (intro ext) (simp add: fl_of_int_def exact_def)

lemma fl_of_nat_exact: "fl_of_nat exact = (\<lambda>n. Some (of_nat n))"
  by (intro ext) (simp add: fl_of_nat_def exact_def)

lemmas exact_simps =
  rnd_exact summ_exact r_lift_exact r_div_exact fl_of_int_exact fl_of_nat_exact

lemma fl_sum_Some: "fl_sum (map Some xs) = Some (sum_list xs)"
  by (induction xs) (simp_all add: fl_sum_def fl_lift_def)

lemma fl_sum_map_Some: "fl_sum (map (\<lambda>x. Some (f x)) xs) = Some (sum_list (map f xs))"
  using fl_sum_Some [of "map f xs"] by (simp add: comp_def)

lemma mean_exact:
  "mean exact xs = (if xs = [] then None else Some (sum_list xs / of_nat (length xs)))"
  by (simp add: mean_def exact_simps fl_sum_Some fl_div_def fl_lift_def)

lemma ge_lowered_exact: "ge_fl p (lowered exact t) = ge_threshold p t"
  by (cases t) (simp_all add: ge_fl_def lowered_def ge_threshold_def exact_simps fl_lift_def)

subsection \<open>The calibrator recomputes the joint\<close>

lemma calibrate_confident_joint_recomputes:
  "calibrate_confident_joint ar cj s psx = calibrate_confident_joint ar () s psx"
  by (simp add: calibrate_confident_joint_def)

text \<open>
  C4. The result of \<open>calibrate_confident_joint\<close> does not depend on the matrix passed as
  \<open>confident_joint\<close>: for fixed labels and probabilities any two matrices give the same
  outcome, a matrix or an error, since the raw joint is recomputed from the labels and the
  probabilities with the default thresholds.
\<close>

theorem calibrate_independent_of_joint:
  "calibrate_confident_joint ar J1 s psx = calibrate_confident_joint ar J2 s psx"
  using calibrate_confident_joint_recomputes [of ar J1] calibrate_confident_joint_recomputes [of ar J2]
  by simp

subsection \<open>The vectorized selection is the decision rule, example by example\<close>

lemma fold_max_bool: "fold max xs (a::bool) = (a \<or> True \<in> set xs)"
  by (induction xs arbitrary: a) (auto simp: max_def)

lemma argmax_bool:
  assumes "True \<in> set b"
  shows "argmax b = length (takeWhile Not b)"
proof -
  from assms have "b \<noteq> []" by auto
  then have "fold max (tl b) (hd b) = True"
    using assms by (cases b) (auto simp: fold_max_bool)
  then have "argmax b = length (takeWhile (\<lambda>y. y \<noteq> True) b)"
    by (simp add: argmax_def)
  then show ?thesis by (simp add: comp_def)
qed

lemma argmax_bool_first:
  assumes "True \<in> set b"
  shows "argmax b < length b \<and> b ! argmax b"
proof -
  let ?i = "length (takeWhile Not b)"
  have "takeWhile Not b \<noteq> b"
    using assms by (auto simp: takeWhile_eq_all_conv)
  then have "?i < length b"
    using length_takeWhile_le [of Not b] takeWhile_eq_take [of Not b]
    by (metis le_neq_implies_less take_all order_refl)
  moreover from this have "b ! ?i"
    using nth_length_takeWhile [of Not b] by simp
  ultimately show ?thesis by (simp add: argmax_bool [OF assms])
qed

lemma map2_nth:
  "length xs = length ys \<Longrightarrow> map2 f xs ys = map (\<lambda>k. f (xs ! k) (ys ! k)) [0..<length xs]"
  by (rule nth_equalityI) simp_all

lemma psx_bool_row:
  assumes "length row = length thr"
  shows "filter id (map2 ge_threshold row thr) = map (\<lambda>k. True) (confident_bins thr row)"
  by (simp add: map2_nth [OF assms] confident_bins_def filter_map comp_def)

lemma single_bin:
  assumes len: "length row = length thr" and one: "confident_bins thr row = [k]"
  shows "argmax (map2 ge_threshold row thr) = k"
proof -
  let ?b = "map2 ge_threshold row thr"
  have b: "?b = map (\<lambda>k. ge_threshold (row ! k) (thr ! k)) [0..<length row]"
    by (rule map2_nth [OF len])
  have "k \<in> set (confident_bins thr row)" using one by simp
  then have "True \<in> set ?b"
    unfolding b confident_bins_def by auto
  then have "argmax ?b < length ?b" "?b ! argmax ?b"
    using argmax_bool_first by blast+
  then have "argmax ?b \<in> set (confident_bins thr row)"
    unfolding confident_bins_def using len by (simp add: b)
  then show ?thesis using one by simp
qed

lemma row_guess:
  assumes len: "length row = length thr"
  shows "(let n = length (filter id (map2 ge_threshold row thr))
          in if 0 < n then Some (if 1 < n then argmax row else argmax (map2 ge_threshold row thr))
             else None) = guess thr row"
proof (cases "confident_bins thr row")
  case Nil
  then show ?thesis by (simp add: psx_bool_row [OF len] guess_def)
next
  case (Cons k ks)
  show ?thesis
  proof (cases ks)
    case Nil
    with Cons have "confident_bins thr row = [k]" by simp
    then show ?thesis
      using single_bin [OF len] by (simp add: psx_bool_row [OF len] guess_def)
  next
    case (Cons k' ks')
    with \<open>confident_bins thr row = k # ks\<close> show ?thesis
      by (simp add: psx_bool_row [OF len] guess_def)
  qed
qed


lemma vectorized_pairs:
  assumes "length s = length psx"
    and "\<forall>row \<in> set psx.
           (if 0 < nb row then Some (if 1 < nb row then a1 row else a2 row) else None)
             = guess thr row"
  shows "select (map (\<lambda>(c, a, b). if c then a else b)
                  (zip (map (\<lambda>n. 1 < n) (map nb psx)) (zip (map a1 psx) (map a2 psx))))
           (map (\<lambda>n. 0 < n) (map nb psx))
           = map snd (confident_pairs s psx thr)
       \<and> select s (map (\<lambda>n. 0 < n) (map nb psx)) = map fst (confident_pairs s psx thr)"
  using assms
proof (induction s psx rule: list_induct2)
  case Nil
  then show ?case by (simp add: select_def confident_pairs_def)
next
  case (Cons l s row psx)
  from Cons.prems have rows: "\<forall>row \<in> set psx.
           (if 0 < nb row then Some (if 1 < nb row then a1 row else a2 row) else None)
             = guess thr row" by simp
  note IH = Cons.IH [OF rows]
  from Cons.prems have g: "guess thr row =
      (if 0 < nb row then Some (if 1 < nb row then a1 row else a2 row) else None)"
    by simp
  have cp: "confident_pairs (l # s) (row # psx) thr
      = (case guess thr row of None \<Rightarrow> [] | Some g \<Rightarrow> [(l, g)]) @ confident_pairs s psx thr"
    by (simp add: confident_pairs_def)
  show ?case
    using IH by (simp add: cp g select_def)
qed

lemma map2_lowered: "map2 ge_fl row (map (lowered exact) thr) = map2 ge_threshold row thr"
  by (simp add: zip_map2 ge_lowered_exact comp_def split_def)

lemma confident_counts_pairs:
  assumes shape: "length s = length psx"
    and rows: "\<forall>row \<in> set psx. length row = length thr"
    and ne: "psx \<noteq> []" "thr \<noteq> []"
  shows "confident_counts exact s psx thr =
           Inr (mat_T (confusion_matrix (map snd (confident_pairs s psx thr))
                                        (map fst (confident_pairs s psx thr))))"
proof -
  have cols: "ncols psx = length thr"
    using rows ne by (cases psx) (simp_all add: ncols_def)
  let ?pb = "map (\<lambda>r. map2 ge_threshold r thr) psx"
  have bc: "broadcast_rows ge_fl psx (map (lowered exact) thr) = Inr ?pb"
    by (simp add: broadcast_rows_def cols map2_lowered)
  have am: "argmax_rows psx = Inr (map argmax psx)"
    using ne cols by (simp add: argmax_rows_def)
  have "ncols ?pb = length thr"
    using ne rows by (cases psx) (simp_all add: ncols_def)
  then have amb: "argmax_rows ?pb = Inr (map argmax ?pb)"
    using ne by (simp add: argmax_rows_def)
  have rg: "\<forall>row \<in> set psx.
     (if 0 < length (filter id (map2 ge_threshold row thr))
      then Some (if 1 < length (filter id (map2 ge_threshold row thr)) then argmax row
                 else argmax (map2 ge_threshold row thr))
      else None) = guess thr row"
  proof
    fix row assume "row \<in> set psx"
    then have len: "length row = length thr" using rows by blast
    show "(if 0 < length (filter id (map2 ge_threshold row thr))
      then Some (if 1 < length (filter id (map2 ge_threshold row thr)) then argmax row
                 else argmax (map2 ge_threshold row thr))
      else None) = guess thr row"
      using row_guess [OF len] unfolding Let_def .
  qed
  note vp = vectorized_pairs [where nb = "\<lambda>row. length (filter id (map2 ge_threshold row thr))"
      and ?a1.0 = argmax and ?a2.0 = "\<lambda>row. argmax (map2 ge_threshold row thr)", OF shape rg]
  show ?thesis
    using vp shape
    by (simp add: confident_counts_def bc am amb Let_def comp_def)
qed

subsection \<open>Arrays given entry by entry\<close>

lemma length_tab: "length (tab K f) = K"
  by (simp add: tab_def)

lemma nth_tab: "i < K \<Longrightarrow> tab K f ! i = map (f i) [0..<K]"
  by (simp add: tab_def)

lemma ncols_tab: "ncols (tab K f) = K"
proof (cases K)
  case 0
  then show ?thesis by (simp add: tab_def ncols_def)
next
  case (Suc n)
  have "[0..<Suc n] = 0 # [1..<Suc n]" by (simp add: upt_rec)
  then show ?thesis unfolding Suc tab_def ncols_def by simp
qed

lemma tab_cong: "(\<And>i j. i < K \<Longrightarrow> j < K \<Longrightarrow> f i j = g i j) \<Longrightarrow> tab K f = tab K g"
  by (simp add: tab_def)


lemma mat_T_tab: "mat_T (tab K f) = tab K (\<lambda>i j. f j i)"
  unfolding mat_T_def ncols_tab by (simp add: tab_def)

lemma map_map_tab: "map (map h) (tab K f) = tab K (\<lambda>i j. h (f i j))"
  by (simp add: tab_def comp_def)

lemma broadcast_rows_tab:
  assumes "length ys = K"
  shows "broadcast_rows g (tab K f) ys = Inr (tab K (\<lambda>i j. g (f i j) (ys ! j)))"
proof -
  have "map2 g (map (f i) [0..<K]) ys = map (\<lambda>j. g (f i j) (ys ! j)) [0..<K]" for i
    using assms by (auto intro!: nth_equalityI)
  then show ?thesis
    unfolding broadcast_rows_def ncols_tab using assms by (simp add: tab_def)
qed


lemma fl_sum_tab:
  "map fl_sum (tab K (\<lambda>i j. Some (f i j))) = map (\<lambda>i. Some (sum_list (map (f i) [0..<K]))) [0..<K]"
  by (simp add: tab_def comp_def fl_sum_map_Some)

lemma sum_list_concat_map: "sum_list (concat xss) = sum_list (map sum_list xss)"
  by (induction xss) simp_all

lemma fl_sum_concat_tab:
  "fl_sum (concat (tab K (\<lambda>i j. Some (f i j))))
     = Some (sum_list (map (\<lambda>i. sum_list (map (f i) [0..<K])) [0..<K]))"
proof -
  have "concat (tab K (\<lambda>i j. Some (f i j))) = map Some (concat (tab K f))"
    by (simp add: tab_def map_concat comp_def)
  moreover have "sum_list (concat (tab K f)) = sum_list (map (\<lambda>i. sum_list (map (f i) [0..<K])) [0..<K])"
    by (simp add: sum_list_concat_map tab_def comp_def)
  ultimately show ?thesis
    by (simp add: fl_sum_Some)
qed

lemma py_round_of_nat: "py_round (of_nat n) = int n"
  by (simp add: py_round_def)

lemma sum_list_scaled:
  fixes r c :: rat
  assumes "sum_list (map f js) = r" "r \<noteq> 0"
  shows "sum_list (map (\<lambda>j. f j / r * c) js) = c"
proof -
  have "sum_list (map (\<lambda>j. f j / r * c) js) = sum_list (map (\<lambda>j. f j * (c / r)) js)"
    by (simp add: field_simps)
  also have "\<dots> = sum_list (map f js) * (c / r)"
    by (rule sum_list_mult_const)
  finally show ?thesis using assms by simp
qed


lemma of_int_sum_list_map: "of_int (sum_list (map f xs)) = (sum_list (map (\<lambda>x. of_int (f x)) xs) :: rat)"
  by (induction xs) simp_all

lemma of_nat_sum_list_map: "of_nat (sum_list (map f xs)) = (sum_list (map (\<lambda>x. of_nat (f x)) xs) :: rat)"
  by (induction xs) simp_all

subsection \<open>The calibration of a joint without an empty row\<close>

lemma calibration_tab:
  fixes c :: "nat \<Rightarrow> nat \<Rightarrow> int" and cnt :: "nat \<Rightarrow> nat"
  assumes bc: "bincount s = map cnt [0..<K]"
    and rs: "\<And>i. i < K \<Longrightarrow> sum_list (map (c i) [0..<K]) \<noteq> 0"
    and tot: "sum_list (map cnt [0..<K]) = length s"
    and ne: "0 < K \<Longrightarrow> s \<noteq> []"
  shows "calibration exact (tab K c) s =
           Inr (tab K (\<lambda>i j. Some (of_int (c i j) / of_int (sum_list (map (c i) [0..<K]))
                                      * of_nat (cnt i))))"
proof -
  let ?r = "\<lambda>i. sum_list (map (c i) [0..<K])"
  let ?N = "of_nat (length s) :: rat"
  let ?cal = "tab K (\<lambda>i j. Some (of_int (c i j) / of_int (?r i) * of_nat (cnt i)))"
  have f1: "fl_of_int_matrix exact (tab K c) = tab K (\<lambda>i j. Some (of_int (c i j)))"
    by (simp add: fl_of_int_matrix_def map_map_tab fl_of_int_exact)
  have f2: "map (\<lambda>r. Some (of_int (sum_list r))) (tab K c)
              = map (\<lambda>i. Some (of_int (?r i) :: rat)) [0..<K]"
    by (simp add: tab_def comp_def)
  have f4: "broadcast_rows fl_div (tab K (\<lambda>i j. Some (of_int (c j i))))
              (map (\<lambda>i. Some (of_int (?r i))) [0..<K])
            = Inr (tab K (\<lambda>i j. Some (of_int (c j i) / of_int (?r j))))"
  proof -
    have "tab K (\<lambda>i j. fl_div (Some (of_int (c j i))) (map (\<lambda>i. Some (of_int (?r i))) [0..<K] ! j))
        = tab K (\<lambda>i j. Some (of_int (c j i) / of_int (?r j)))"
      by (rule tab_cong) (simp add: fl_div_def fl_lift_def rs)
    then show ?thesis by (simp add: broadcast_rows_tab)
  qed
  have f5: "broadcast_rows (fl_lift (*)) (tab K (\<lambda>i j. Some (of_int (c j i) / of_int (?r j))))
              (map (\<lambda>c. Some (of_nat c)) (map cnt [0..<K]))
            = Inr (tab K (\<lambda>i j. Some (of_int (c j i) / of_int (?r j) * of_nat (cnt j))))"
  proof -
    have "tab K (\<lambda>i j. fl_lift (*) (Some (of_int (c j i) / of_int (?r j)))
                    (map (\<lambda>c. Some (of_nat c)) (map cnt [0..<K]) ! j))
        = tab K (\<lambda>i j. Some (of_int (c j i) / of_int (?r j) * of_nat (cnt j)))"
      by (rule tab_cong) (simp add: fl_lift_def)
    then show ?thesis by (simp add: broadcast_rows_tab)
  qed
  have row: "sum_list (map (\<lambda>j. of_int (c i j) / of_int (?r i) * of_nat (cnt i)) [0..<K])
               = (of_nat (cnt i) :: rat)" if "i < K" for i
  proof (rule sum_list_scaled)
    show "(\<Sum>j\<leftarrow>[0..<K]. (of_int (c i j) :: rat)) = of_int (?r i)"
      by (simp add: of_int_sum_list_map)
    show "(of_int (?r i) :: rat) \<noteq> 0" using rs [OF that] by simp
  qed
  have rows: "map (\<lambda>i. sum_list (map (\<lambda>j. of_int (c i j) / of_int (?r i) * of_nat (cnt i)) [0..<K]))
                [0..<K] = map (\<lambda>i. (of_nat (cnt i) :: rat)) [0..<K]"
    using row by simp
  have f7: "fl_sum (concat ?cal) = Some ?N"
  proof -
    have "fl_sum (concat ?cal)
        = Some (sum_list (map (\<lambda>i. sum_list (map (\<lambda>j. of_int (c i j) / of_int (?r i) * of_nat (cnt i))
                                                    [0..<K])) [0..<K]))"
      by (rule fl_sum_concat_tab)
    also have "\<dots> = Some (sum_list (map (\<lambda>i. (of_nat (cnt i) :: rat)) [0..<K]))"
      by (simp only: rows)
    also have "\<dots> = Some (of_nat (sum_list (map cnt [0..<K])))"
      by (simp only: of_nat_sum_list_map)
    finally show ?thesis by (simp only: tot)
  qed
  have f8: "map (map (\<lambda>x. fl_lift (*) (fl_div x (Some ?N)) (Some ?N))) ?cal = ?cal"
    unfolding map_map_tab
  proof (rule tab_cong)
    fix i j assume "i < K"
    then have "?N \<noteq> 0" using ne by auto
    then show "fl_lift (*) (fl_div (Some (of_int (c i j) / of_int (?r i) * of_nat (cnt i))) (Some ?N))
                 (Some ?N) = Some (of_int (c i j) / of_int (?r i) * of_nat (cnt i))"
      by (simp add: fl_div_def fl_lift_def)
  qed
  have f9: "map fl_sum ?cal = map (\<lambda>i. Some (of_nat (cnt i))) [0..<K]"
  proof -
    have "map fl_sum ?cal
        = map (\<lambda>i. Some (sum_list (map (\<lambda>j. of_int (c i j) / of_int (?r i) * of_nat (cnt i)) [0..<K])))
            [0..<K]"
      by (rule fl_sum_tab)
    also have "\<dots> = map (\<lambda>i. Some (of_nat (cnt i))) [0..<K]"
      using row by simp
    finally show ?thesis .
  qed
  have f10: "broadcast rounds_to (map (\<lambda>i. Some (of_nat (cnt i))) [0..<K]) (map cnt [0..<K])
               = Inr (map (\<lambda>i. True) [0..<K])"
    by (auto simp: broadcast_def rounds_to_def py_round_of_nat intro!: nth_equalityI)
  have f11: "list_all id (map (\<lambda>i. True) [0..<K])"
    by (simp add: list_all_iff)
  show ?thesis
    by (simp only: calibration_def Let_def exact_simps bc sum.case f1 f2 mat_T_tab f4 f5 f7
        f8 f9 f10 f11 option.case py_round_of_nat not_True_eq_False if_False if_True simp_thms)
qed

lemma calibrate_tab:
  fixes c :: "nat \<Rightarrow> nat \<Rightarrow> int" and cnt :: "nat \<Rightarrow> nat"
  assumes cj: "compute_confident_joint exact s psx None None = Inr (tab K c)"
    and bc: "bincount s = map cnt [0..<K]"
    and rs: "\<And>i. i < K \<Longrightarrow> sum_list (map (c i) [0..<K]) \<noteq> 0"
    and tot: "sum_list (map cnt [0..<K]) = length s"
    and ne: "0 < K \<Longrightarrow> s \<noteq> []"
  shows "calibrate_confident_joint exact J s psx =
           Inr (tab K (\<lambda>i j. Some (of_int (c i j) / of_int (sum_list (map (c i) [0..<K]))
                                      * of_nat (cnt i))))"
  using calibration_tab [of s cnt K c, OF bc rs tot ne]
  by (simp add: calibrate_confident_joint_def cj)

subsection \<open>Every class has a confident example under the default thresholds\<close>

lemma mean_le_some:
  fixes xs :: "rat list"
  assumes "xs \<noteq> []"
  shows "\<exists>x \<in> set xs. sum_list xs / of_nat (length xs) \<le> x"
proof (rule ccontr)
  assume "\<not> ?thesis"
  then have lt: "\<forall>x \<in> set xs. x < sum_list xs / of_nat (length xs)" by auto
  have "sum_list ys < of_nat (length ys) * m" if "ys \<noteq> []" "\<forall>y \<in> set ys. y < m" for ys and m :: rat
    using that
  proof (induction ys)
    case Nil
    then show ?case by simp
  next
    case (Cons y ys)
    show ?case
    proof (cases "ys = []")
      case True
      with Cons.prems show ?thesis by simp
    next
      case False
      with Cons have "sum_list ys < of_nat (length ys) * m" by simp
      moreover from Cons.prems have "y < m" by simp
      ultimately show ?thesis by (simp add: algebra_simps)
    qed
  qed
  from this [OF assms lt] assms show False by simp
qed

lemma argmax_less:
  fixes xs :: "'a::linorder list"
  assumes "xs \<noteq> []"
  shows "argmax xs < length xs"
proof -
  have "fold max (tl xs) (hd xs) = Max (set xs)"
    using assms Max.set_eq_fold [of "hd xs" "tl xs"] by simp
  then have "fold max (tl xs) (hd xs) \<in> set xs"
    using assms by simp
  then have "takeWhile (\<lambda>y. y \<noteq> fold max (tl xs) (hd xs)) xs \<noteq> xs"
    by (auto simp: takeWhile_eq_all_conv)
  then show ?thesis
    unfolding argmax_def
    using length_takeWhile_le [of _ xs] takeWhile_eq_take [of _ xs]
    by (metis le_neq_implies_less take_all order_refl)
qed


lemma guess_less:
  assumes "guess thr row = Some g"
  shows "g < length row"
proof (cases "confident_bins thr row")
  case Nil
  with assms show ?thesis by (simp add: guess_def)
next
  case (Cons k ks)
  then have "k \<in> set (confident_bins thr row)" by simp
  then have k: "k < length row" by (simp add: confident_bins_def)
  show ?thesis
  proof (cases ks)
    case Nil
    with Cons assms k show ?thesis by (simp add: guess_def)
  next
    case (Cons k' ks')
    from k have "row \<noteq> []" by auto
    with Cons \<open>confident_bins thr row = k # ks\<close> assms argmax_less [of row]
    show ?thesis by (simp add: guess_def)
  qed
qed

lemma guess_some:
  assumes "k < length row" and "ge_threshold (row ! k) (thr ! k)"
  shows "guess thr row \<noteq> None"
proof -
  from assms have "k \<in> set (confident_bins thr row)"
    by (simp add: confident_bins_def)
  then have "confident_bins thr row \<noteq> []" by auto
  then show ?thesis
    by (auto simp: guess_def split: list.splits)
qed

lemma set_confident_pairs:
  "set (confident_pairs s psx thr)
     = {(l, g). \<exists>row. (l, row) \<in> set (zip s psx) \<and> guess thr row = Some g}"
  by (auto simp: confident_pairs_def split: option.splits)


lemma ncols_rows:
  assumes "\<forall>row \<in> set psx. length row = K" and "psx \<noteq> []"
  shows "ncols psx = K"
  using assms by (cases psx) (simp_all add: ncols_def)

lemma default_thresholds_shape:
  assumes len: "length s = length psx"
    and rows: "\<forall>row \<in> set psx. length row = K"
    and K: "0 < K \<longrightarrow> s \<noteq> []"
  shows "default_thresholds exact s psx K =
           Inr (map (\<lambda>k. mean exact (map (\<lambda>(l, row). row ! k) (filter (\<lambda>(l, row). l = k) (zip s psx))))
                  [0..<K])"
proof (cases "0 < K")
  case True
  with K len have "psx \<noteq> []" by auto
  then have "ncols psx = K" using rows by (rule ncols_rows [rotated])
  then show ?thesis using len by (simp add: default_thresholds_def)
next
  case False
  then show ?thesis by (simp add: default_thresholds_def)
qed

lemma default_threshold_reached:
  assumes len: "length s = length psx" and k: "k \<in> set s"
  shows "\<exists>row. (k, row) \<in> set (zip s psx)
           \<and> ge_threshold (row ! k)
                (mean exact (map (\<lambda>(l, row). row ! k) (filter (\<lambda>(l, row). l = k) (zip s psx))))"
proof -
  let ?sel = "filter (\<lambda>(l, row). l = k) (zip s psx)"
  let ?col = "map (\<lambda>(l, row). row ! k) ?sel"
  from k len have "k \<in> fst ` set (zip s psx)"
    by (metis map_fst_zip set_map)
  then have "?sel \<noteq> []"
    by (auto simp: filter_empty_conv)
  then have ne: "?col \<noteq> []" by simp
  from mean_le_some [OF ne] obtain x where x: "x \<in> set ?col"
    and le: "sum_list ?col / of_nat (length ?col) \<le> x" by blast
  from x obtain row where row: "(k, row) \<in> set (zip s psx)" and xr: "x = row ! k"
    by auto
  have "ge_threshold (row ! k) (mean exact ?col)"
    using le ne xr by (simp add: ge_threshold_def mean_exact)
  with row show ?thesis by blast
qed


lemma unique_range:
  assumes "set xs = {0..<K}"
  shows "unique xs = [0..<K]"
proof -
  have "unique xs = sorted_list_of_set (set xs)"
    by (simp add: unique_def sorted_list_of_set_sort_remdups)
  then show ?thesis using assms by simp
qed

lemma confusion_matrix_range:
  assumes "set (yt @ yp) = {0..<K}"
  shows "confusion_matrix yt yp = tab K (\<lambda>a b. int (count_list (zip yt yp) (a, b)))"
  by (simp only: confusion_matrix_def unique_range [OF assms] Let_def tab_def)

lemma count_list_swap:
  "count_list (zip (map snd ps) (map fst ps)) (j, i) = count_list ps (i, j)"
  by (induction ps) auto

lemma indicator_sum_int_out:
  "\<not> g < K \<Longrightarrow> sum_list (map (\<lambda>j. if g = j then (1::'a::semiring_1) else 0) [0..<K]) = 0"
  by (induction K) auto

lemma indicator_sum_int:
  "g < K \<Longrightarrow> sum_list (map (\<lambda>j. if g = j then (1::'a::semiring_1) else 0) [0..<K]) = 1"
proof (induction K)
  case 0
  then show ?case by simp
next
  case (Suc K)
  show ?case
  proof (cases "g < K")
    case True
    with Suc show ?thesis by simp
  next
    case False
    with Suc.prems have "g = K" by simp
    with indicator_sum_int_out [of g K, where 'a = 'a] show ?thesis by simp
  qed
qed

lemma pair_row_sum:
  assumes "\<forall>(l, g) \<in> set ps. g < K"
  shows "sum_list (map (\<lambda>j. int (count_list ps (i, j))) [0..<K]) = int (count_list (map fst ps) i)"
  using assms
proof (induction ps)
  case Nil
  then show ?case by simp
next
  case (Cons p ps)
  obtain l g where p: "p = (l, g)" by (cases p)
  with Cons.prems have g: "g < K" by simp
  have "(\<Sum>j\<leftarrow>[0..<K]. int (count_list (p # ps) (i, j)))
      = (\<Sum>j\<leftarrow>[0..<K]. int (count_list ps (i, j)) + (if l = i then (if g = j then 1 else 0) else 0))"
    by (rule arg_cong [where f = sum_list]) (auto simp: p)
  also have "\<dots> = (\<Sum>j\<leftarrow>[0..<K]. int (count_list ps (i, j)))
                 + (\<Sum>j\<leftarrow>[0..<K]. if l = i then (if g = j then 1 else 0) else 0)"
    by (simp add: sum_list_addf)
  also have "(\<Sum>j\<leftarrow>[0..<K]. if l = i then (if g = j then (1::int) else 0) else 0)
              = (if l = i then 1 else 0)"
    using indicator_sum_int [OF g, where 'a = int] by (cases "l = i") simp_all
  finally show ?case using Cons by (simp add: p)
qed


lemma count_list_sum:
  assumes "set s \<subseteq> {0..<K}"
  shows "sum_list (map (count_list s) [0..<K]) = length s"
  using assms
proof (induction s)
  case Nil
  then show ?case by simp
next
  case (Cons x s)
  then have x: "x < K" by simp
  have "(\<Sum>i\<leftarrow>[0..<K]. count_list (x # s) i)
      = (\<Sum>i\<leftarrow>[0..<K]. count_list s i + (if x = i then 1 else 0))"
    by (rule arg_cong [where f = sum_list]) auto
  also have "\<dots> = (\<Sum>i\<leftarrow>[0..<K]. count_list s i) + (\<Sum>i\<leftarrow>[0..<K]. if x = i then 1 else 0)"
    by (simp add: sum_list_addf)
  finally show ?case
    using Cons indicator_sum_int [OF x, where 'a = nat] by simp
qed

lemma bincount_range:
  assumes "set s = {0..<K}"
  shows "bincount s = map (count_list s) [0..<K]"
proof (cases "s = []")
  case True
  with assms show ?thesis by (simp add: bincount_def)
next
  case False
  with assms have K: "0 < K" by (cases K) auto
  have "fold max s 0 = Max (set (0 # s))"
    by (simp only: Max.set_eq_fold)
  also have "\<dots> = Max {0..<K}"
    using assms K by (simp add: insert_absorb)
  also have "\<dots> = K - 1"
    using K by (intro Max_eqI) auto
  finally show ?thesis using False K by (simp add: bincount_def)
qed


lemma default_pairs_props:
  assumes cls: "set s = {0..<K}" and len: "length psx = length s"
    and rows: "\<forall>row \<in> set psx. length row = K"
  shows "\<forall>(l, g) \<in> set (default_pairs s psx K). l < K \<and> g < K"
    and "\<forall>k < K. k \<in> set (map fst (default_pairs s psx K))"
proof -
  let ?thr = "class_thresholds s psx K"
  show "\<forall>(l, g) \<in> set (default_pairs s psx K). l < K \<and> g < K"
  proof (clarify)
    fix l g assume "(l, g) \<in> set (default_pairs s psx K)"
    then obtain row where z: "(l, row) \<in> set (zip s psx)" and g: "guess ?thr row = Some g"
      by (auto simp: default_pairs_def set_confident_pairs)
    from z have "l \<in> set s" "row \<in> set psx"
      by (auto dest: set_zip_leftD set_zip_rightD)
    with cls rows guess_less [OF g] show "l < K \<and> g < K" by auto
  qed
  show "\<forall>k < K. k \<in> set (map fst (default_pairs s psx K))"
  proof (intro allI impI)
    fix k assume k: "k < K"
    with cls have ks: "k \<in> set s" by simp
    from default_threshold_reached [OF len [symmetric] ks] obtain row
      where z: "(k, row) \<in> set (zip s psx)"
        and ge: "ge_threshold (row ! k)
           (mean exact (map (\<lambda>(l, row). row ! k) (filter (\<lambda>(l, row). l = k) (zip s psx))))"
      by blast
    from z have "row \<in> set psx" by (auto dest: set_zip_rightD)
    with rows k have kl: "k < length row" by simp
    have "?thr ! k = mean exact (map (\<lambda>(l, row). row ! k) (filter (\<lambda>(l, row). l = k) (zip s psx)))"
      using k by (simp add: class_thresholds_def)
    with ge have "ge_threshold (row ! k) (?thr ! k)" by simp
    from guess_some [OF kl this] obtain g where "guess ?thr row = Some g" by auto
    with z have "(k, g) \<in> set (default_pairs s psx K)"
      by (auto simp: default_pairs_def set_confident_pairs)
    then show "k \<in> set (map fst (default_pairs s psx K))" by force
  qed
qed


lemma default_joint:
  assumes cls: "set s = {0..<K}" and len: "length psx = length s"
    and rows: "\<forall>row \<in> set psx. length row = K"
    and pos: "0 < K"
  shows "compute_confident_joint exact s psx None None
           = Inr (tab K (\<lambda>i j. int (count_list (default_pairs s psx K) (i, j))))"
proof -
  let ?thr = "class_thresholds s psx K"
  let ?ps = "default_pairs s psx K"
  have uK: "length (unique s) = K"
    by (simp add: unique_range [OF cls])
  have K0: "0 < K \<longleftrightarrow> s \<noteq> []"
    using cls by (cases K) auto
  have dt: "default_thresholds exact s psx K = Inr ?thr"
    unfolding class_thresholds_def
    using K0 by (intro default_thresholds_shape len [symmetric] rows) simp
  have lthr: "length ?thr = K" by (simp add: class_thresholds_def)
  have ne: "psx \<noteq> []" "?thr \<noteq> []"
    using len K0 lthr pos by auto
  have cc: "confident_counts exact s psx ?thr
      = Inr (mat_T (confusion_matrix (map snd ?ps) (map fst ?ps)))"
    unfolding default_pairs_def
    using rows lthr by (intro confident_counts_pairs len [symmetric] ne) simp
  from default_pairs_props [OF cls len rows]
  have "set (map snd ?ps @ map fst ?ps) = {0..<K}"
    by (auto 0 3)
  then have "confusion_matrix (map snd ?ps) (map fst ?ps)
      = tab K (\<lambda>a b. int (count_list (zip (map snd ?ps) (map fst ?ps)) (a, b)))"
    by (rule confusion_matrix_range)
  then have "mat_T (confusion_matrix (map snd ?ps) (map fst ?ps))
      = tab K (\<lambda>i j. int (count_list ?ps (i, j)))"
    by (simp only: mat_T_tab count_list_swap)
  with cc show ?thesis
    by (simp add: compute_confident_joint_def uK dt)
qed



lemma default_calibration:
  assumes cls: "set s = {0..<K}" and len: "length psx = length s"
    and rows: "\<forall>row \<in> set psx. length row = K"
    and pos: "0 < K"
  defines "c \<equiv> \<lambda>i j. int (count_list (default_pairs s psx K) (i, j))"
  shows "calibrate_confident_joint exact J s psx =
           Inr (tab K (\<lambda>i j. Some (of_int (c i j) / of_int (sum_list (map (c i) [0..<K]))
                                      * of_nat (count_list s i))))"
    and "\<forall>i < K. sum_list (map (c i) [0..<K]) \<noteq> 0"
proof -
  note props = default_pairs_props [OF cls len rows]
  have snd: "\<forall>(l, g) \<in> set (default_pairs s psx K). g < K"
    using props(1) by auto
  show rs: "\<forall>i < K. sum_list (map (c i) [0..<K]) \<noteq> 0"
  proof (intro allI impI)
    fix i assume "i < K"
    with props(2) have "count_list (map fst (default_pairs s psx K)) i \<noteq> 0"
      by (simp add: count_list_0_iff)
    then show "sum_list (map (c i) [0..<K]) \<noteq> 0"
      unfolding c_def pair_row_sum [OF snd] by simp
  qed
  have cj: "compute_confident_joint exact s psx None None = Inr (tab K c)"
    unfolding c_def by (rule default_joint [OF cls len rows pos])
  have tot: "sum_list (map (count_list s) [0..<K]) = length s"
    using cls by (intro count_list_sum) simp
  have ne: "s \<noteq> []" if "0 < K"
    using that cls by auto
  show "calibrate_confident_joint exact J s psx =
           Inr (tab K (\<lambda>i j. Some (of_int (c i j) / of_int (sum_list (map (c i) [0..<K]))
                                      * of_nat (count_list s i))))"
    using rs by (intro calibrate_tab cj bincount_range [OF cls] tot ne) simp_all
qed




subsection \<open>Finite floats\<close>

lemma concat_fl_matrix: "concat (fl_matrix m) = map Some (concat m)"
  by (simp add: fl_matrix_def map_concat)

lemma ncols_map: "ncols (map (map f) m) = ncols m"
  by (cases m) (simp_all add: ncols_def)

subsection \<open>The number of label errors is a truncated product\<close>

lemma num_label_errors_product:
  "num_label_errors ar labels psx cj =
     (case joint_and_sum ar labels psx cj of Inl e \<Rightarrow> Inl e
      | Inr (m, w) \<Rightarrow> int_of_float (error_product ar (length labels) m w))"
  by (simp add: num_label_errors_def error_product_def int_of_float_def Let_def
      split: sum.splits prod.splits option.splits)

subsection \<open>Noiseless, perfectly confident probabilities\<close>

lemma zip_map_self: "zip s (map f s) = map (\<lambda>l. (l, f l)) s"
  by (induction s) simp_all

lemma filter_eq_upt: "l < K \<Longrightarrow> filter (\<lambda>k. k = l) [0..<K] = [l]"
proof (induction K)
  case 0
  then show ?case by simp
next
  case (Suc K)
  show ?case
  proof (cases "l < K")
    case True
    with Suc show ?thesis by simp
  next
    case False
    with Suc.prems have "l = K" by simp
    then show ?thesis by (simp add: filter_empty_conv)
  qed
qed

lemma noiseless_threshold:
  assumes "k \<in> set s" and "k < K"
  shows "class_thresholds s (map (one_hot K) s) K ! k = Some 1"
proof -
  let ?col = "map (\<lambda>(l, row). row ! k) (filter (\<lambda>(l, row). l = k) (zip s (map (one_hot K) s)))"
  have "?col = map (\<lambda>l. one_hot K l ! k) (filter (\<lambda>l. l = k) s)"
    by (simp add: zip_map_self filter_map comp_def)
  also have "\<dots> = map (\<lambda>l. 1) (filter (\<lambda>l. l = k) s)"
    using assms(2) by (intro map_cong) (simp_all add: one_hot_def)
  finally have col: "?col = map (\<lambda>l. 1) (filter (\<lambda>l. l = k) s)" .
  from assms(1) have ne: "filter (\<lambda>l. l = k) s \<noteq> []"
    by (auto simp: filter_empty_conv)
  have "sum_list (map (\<lambda>l. 1::rat) xs) = of_nat (length xs)" for xs :: "nat list"
    by (induction xs) simp_all
  then have "mean exact (map (\<lambda>l. 1) (filter (\<lambda>l. l = k) s)) = Some 1"
    using ne by (simp add: mean_exact)
  with col show ?thesis
    using assms(2) by (simp add: class_thresholds_def)
qed

lemma noiseless_guess:
  assumes cls: "set s = {0..<K}" and l: "l < K"
  shows "guess (class_thresholds s (map (one_hot K) s) K) (one_hot K l) = Some l"
proof -
  let ?thr = "class_thresholds s (map (one_hot K) s) K"
  have "ge_threshold (one_hot K l ! k) (?thr ! k) = (k = l)" if "k < K" for k
  proof -
    from that cls have "k \<in> set s" by simp
    from noiseless_threshold [OF this that] that show ?thesis
      by (simp add: ge_threshold_def one_hot_def)
  qed
  then have "confident_bins ?thr (one_hot K l) = filter (\<lambda>k. k = l) [0..<K]"
    unfolding confident_bins_def by (intro filter_cong) (simp_all add: one_hot_def)
  with l show ?thesis
    by (simp add: filter_eq_upt guess_def)
qed

lemma noiseless_pairs:
  assumes cls: "set s = {0..<K}"
  shows "default_pairs s (map (one_hot K) s) K = map (\<lambda>l. (l, l)) s"
proof -
  let ?thr = "class_thresholds s (map (one_hot K) s) K"
  have e1: "default_pairs s (map (one_hot K) s) K
      = concat (map (\<lambda>l. case guess ?thr (one_hot K l) of None \<Rightarrow> [] | Some g \<Rightarrow> [(l, g)]) s)"
    by (simp add: default_pairs_def confident_pairs_def zip_map_self comp_def)
  have e2: "map (\<lambda>l. case guess ?thr (one_hot K l) of None \<Rightarrow> [] | Some g \<Rightarrow> [(l, g)]) s
      = map (\<lambda>l. [(l, l)]) s"
    using cls by (intro map_cong) (simp_all add: noiseless_guess [OF cls])
  have e3: "concat (map (\<lambda>l. [(l, l)]) s) = map (\<lambda>l. (l, l)) s"
    by (induction s) simp_all
  show ?thesis by (simp only: e1 e2 e3)
qed

lemma count_list_diagonal:
  "count_list (map (\<lambda>l. (l, l)) s) (i, j) = (if i = j then count_list s i else 0)"
  by (induction s) auto

lemma noiseless_joint:
  assumes cls: "set s = {0..<K}" and pos: "0 < K"
  shows "compute_confident_joint exact s (map (one_hot K) s) None None
           = Inr (tab K (\<lambda>i j. if i = j then int (count_list s i) else 0))"
proof -
  have rows: "\<forall>row \<in> set (map (one_hot K) s). length row = K"
    by (auto simp: one_hot_def)
  have "tab K (\<lambda>i j. int (count_list (default_pairs s (map (one_hot K) s) K) (i, j)))
      = tab K (\<lambda>i j. if i = j then int (count_list s i) else 0)"
    by (rule tab_cong) (simp add: noiseless_pairs [OF cls] count_list_diagonal)
  with default_joint [OF cls _ rows pos] show ?thesis by simp
qed


lemma default_thresholds_classes:
  assumes cls: "set s = {0..<K}" and len: "length psx = length s"
    and rows: "\<forall>row \<in> set psx. length row = K"
  shows "default_thresholds exact s psx K = Inr (class_thresholds s psx K)"
proof -
  have "0 < K \<longrightarrow> s \<noteq> []" using cls by auto
  then show ?thesis
    unfolding class_thresholds_def
    by (intro default_thresholds_shape len [symmetric] rows)
qed

lemma single_pass_default:
  assumes cls: "set s = {0..<K}" and len: "length psx = length s"
    and rows: "\<forall>row \<in> set psx. length row = K"
    and pos: "0 < K"
    and cal: "calibrate_confident_joint exact () s psx = Inr cal"
  shows "estimate_confident_joint_from_probabilities exact s psx NoThresholds (FBool False) False h
           = Inr (Final cal, snd (new_array (Float64, class_thresholds s psx K) h))"
proof -
  have uK: "length (unique s) = K"
    by (simp add: unique_range [OF cls])
  note dt = default_thresholds_classes [OF cls len rows]
  obtain t h1 where na: "new_array (Float64, class_thresholds s psx K) h = (t, h1)"
    by (cases "new_array (Float64, class_thresholds s psx K) h")
  then have cell: "snd (cells h1 t) = class_thresholds s psx K"
    by (auto simp: new_array_def)
  have "compute_confident_joint exact s psx (Some K) (Some (class_thresholds s psx K))
      = compute_confident_joint exact s psx None None"
    by (simp add: compute_confident_joint_def uK dt)
  with default_joint [OF cls len rows pos] obtain cj
    where cj: "compute_confident_joint exact s psx (Some K) (Some (class_thresholds s psx K)) = Inr cj"
    by simp
  have cal': "calibrate_confident_joint exact cj s psx = Inr cal"
    using cal calibrate_confident_joint_recomputes [of exact cj s psx] by simp
  have "py_range (sgd_epochs (FBool False)) = [0]"
    by (simp add: py_range_def)
  then show ?thesis
    by (simp add: estimate_confident_joint_from_probabilities_def uK dt na cell cj cal')
qed


lemma diagonal_row_sum:
  fixes a :: "'a::semiring_1"
  assumes "i < K"
  shows "sum_list (map (\<lambda>j. if i = j then a else 0) [0..<K]) = a"
proof -
  have "sum_list (map (\<lambda>j. if i = j then a else 0) [0..<K])
      = sum_list (map (\<lambda>j. a * (if i = j then 1 else 0)) [0..<K])"
    by (rule arg_cong [where f = sum_list]) simp
  also have "\<dots> = a * sum_list (map (\<lambda>j. if i = j then 1 else 0) [0..<K])"
    by (rule sum_list_const_mult)
  finally show ?thesis using indicator_sum_int [OF assms, where 'a = 'a] by simp
qed

lemma rat_trace_tab: "rat_trace (tab K g) = sum_list (map (\<lambda>i. g i i) [0..<K])"
proof -
  have "map (\<lambda>i. tab K g ! i ! i) [0..<K] = map (\<lambda>i. g i i) [0..<K]"
    by (rule map_cong) (simp_all add: nth_tab)
  then show ?thesis
    unfolding rat_trace_def length_tab ncols_tab min.idem by (simp only:)
qed

lemma noiseless_calibration:
  assumes cls: "set s = {0..<K}" and pos: "0 < K"
  shows "calibrate_confident_joint exact () s (map (one_hot K) s)
           = Inr (fl_matrix (tab K (\<lambda>i j. if i = j then of_nat (count_list s i) else 0)))"
proof -
  let ?psx = "map (one_hot K) s"
  let ?c = "\<lambda>i j. int (count_list (default_pairs s ?psx K) (i, j))"
  have rows: "\<forall>row \<in> set ?psx. length row = K"
    by (auto simp: one_hot_def)
  have len: "length ?psx = length s" by simp
  have c: "?c i j = (if i = j then int (count_list s i) else 0)" for i j
    by (simp add: noiseless_pairs [OF cls] count_list_diagonal)
  have "tab K (\<lambda>i j. Some (of_int (?c i j) / of_int (sum_list (map (?c i) [0..<K]))
                            * of_nat (count_list s i)))
      = tab K (\<lambda>i j. Some (if i = j then of_nat (count_list s i) else (0::rat)))"
  proof (rule tab_cong)
    fix i j assume i: "i < K" and "j < K"
    have r: "sum_list (map (\<lambda>j. if i = j then int (count_list s i) else 0) [0..<K])
               = int (count_list s i)"
      by (rule diagonal_row_sum [OF i])
    from i cls have "count_list s i \<noteq> 0"
      by (simp add: count_list_0_iff)
    then show "Some (of_int (?c i j) / of_int (sum_list (map (?c i) [0..<K]))
                  * of_nat (count_list s i))
             = Some (if i = j then of_nat (count_list s i) else (0::rat))"
      unfolding c r by simp
  qed
  with default_calibration(1) [OF cls len rows pos, where J = "()"] show ?thesis
    by (simp add: fl_matrix_def map_map_tab)
qed


lemma trace_fl_matrix:
  assumes "\<forall>r \<in> set m. length r = ncols m"
  shows "trace exact (fl_matrix m) = Some (rat_trace m)"
proof -
  have "map (\<lambda>i. fl_matrix m ! i ! i) [0..<min (length m) (ncols m)]
      = map (\<lambda>i. Some (m ! i ! i)) [0..<min (length m) (ncols m)]"
    using assms by (auto simp: fl_matrix_def)
  moreover have "length (fl_matrix m) = length m" "ncols (fl_matrix m) = ncols m"
    by (simp_all add: fl_matrix_def ncols_map)
  ultimately show ?thesis
    unfolding trace_def rat_trace_def summ_exact by (simp only: fl_sum_map_Some)
qed

lemma error_product_exact:
  assumes rect: "\<forall>r \<in> set cj. length r = ncols cj"
    and nz: "sum_list (concat cj) \<noteq> 0"
  shows "error_product exact N (fl_matrix cj) (fl_sum (concat (fl_matrix cj)))
           = Some ((1 - rat_trace (normalized_joint cj)) * of_nat N)"
proof -
  let ?t = "sum_list (concat cj)"
  have whole: "fl_sum (concat (fl_matrix cj)) = Some ?t"
    by (simp add: concat_fl_matrix fl_sum_Some)
  have joint: "map (map (\<lambda>x. fl_div x (Some ?t))) (fl_matrix cj) = fl_matrix (normalized_joint cj)"
    using nz by (simp add: fl_matrix_def normalized_joint_def fl_div_def fl_lift_def comp_def)
  have rect': "\<forall>r \<in> set (normalized_joint cj). length r = ncols (normalized_joint cj)"
    using rect by (auto simp: normalized_joint_def ncols_map)
  show ?thesis
    by (simp add: error_product_def whole r_div_exact r_lift_exact fl_of_nat_exact joint
        trace_fl_matrix [OF rect'] fl_lift_def)
qed

lemma noiseless_errors:
  assumes cls: "set s = {0..<K}" and pos: "0 < K"
  shows "num_label_errors exact s (map (one_hot K) s) None = Inr 0"
proof -
  let ?psx = "map (one_hot K) s"
  let ?d = "\<lambda>i j. if i = j then (of_nat (count_list s i) :: rat) else 0"
  let ?N = "of_nat (length s) :: rat"
  from cls pos have ne: "s \<noteq> []" by auto
  then have N: "?N \<noteq> 0" by simp
  have rows: "\<forall>row \<in> set ?psx. length row = K"
    by (auto simp: one_hot_def)
  note cal = noiseless_calibration [OF cls pos]
  have est: "estimate_confident_joint_from_probabilities exact s ?psx NoThresholds (FBool False)
               False no_arrays
      = Inr (Final (fl_matrix (tab K ?d)),
             snd (new_array (Float64, class_thresholds s ?psx K) no_arrays))"
    by (rule single_pass_default [OF cls _ rows pos cal]) simp
  have rsum: "sum_list (map (?d i) [0..<K]) = of_nat (count_list s i)" if "i < K" for i
    by (rule diagonal_row_sum [OF that])
  have "sum_list (concat (tab K ?d)) = sum_list (map (\<lambda>i. sum_list (map (?d i) [0..<K])) [0..<K])"
    by (simp add: sum_list_concat_map tab_def comp_def)
  also have "\<dots> = sum_list (map (\<lambda>i. (of_nat (count_list s i) :: rat)) [0..<K])"
    by (rule arg_cong [where f = sum_list], rule map_cong) (simp_all add: rsum)
  also have "\<dots> = of_nat (sum_list (map (count_list s) [0..<K]))"
    by (simp only: of_nat_sum_list_map)
  also have "\<dots> = ?N"
    using cls by (simp add: count_list_sum)
  finally have whole: "sum_list (concat (tab K ?d)) = ?N" .
  have diag: "sum_list (map (\<lambda>i. (of_nat (count_list s i) :: rat)) [0..<K]) = ?N"
    using cls by (simp add: of_nat_sum_list_map [symmetric] count_list_sum)
  have "normalized_joint (tab K ?d) = tab K (\<lambda>i j. ?d i j / ?N)"
    by (simp only: normalized_joint_def whole map_map_tab)
  then have "rat_trace (normalized_joint (tab K ?d)) = sum_list (map (\<lambda>i. ?d i i / ?N) [0..<K])"
    by (simp only: rat_trace_tab)
  also have "\<dots> = sum_list (map (\<lambda>i. (of_nat (count_list s i) :: rat) * (1 / ?N)) [0..<K])"
    by (rule arg_cong [where f = sum_list]) simp
  also have "\<dots> = sum_list (map (\<lambda>i. (of_nat (count_list s i) :: rat)) [0..<K]) * (1 / ?N)"
    by (rule sum_list_mult_const)
  also have "\<dots> = 1" using N by (simp add: diag)
  finally have tr: "rat_trace (normalized_joint (tab K ?d)) = 1" .
  have "error_product exact (length s) (fl_matrix (tab K ?d))
          (fl_sum (concat (fl_matrix (tab K ?d))))
      = Some ((1 - rat_trace (normalized_joint (tab K ?d))) * of_nat (length s))"
  proof (rule error_product_exact)
    show "\<forall>r \<in> set (tab K ?d). length r = ncols (tab K ?d)"
      by (simp add: ncols_tab) (simp add: tab_def)
    show "sum_list (concat (tab K ?d)) \<noteq> 0"
      unfolding whole by (rule N)
  qed
  then have "error_product exact (length s) (fl_matrix (tab K ?d))
          (fl_sum (concat (fl_matrix (tab K ?d)))) = Some 0"
    by (simp add: tr)
  then show ?thesis
    by (simp add: num_label_errors_product joint_and_sum_def est summ_exact int_of_float_def
        py_int_def)
qed

text \<open>
  C7. In exact arithmetic: when there is at least one class, the labels are exactly the
  classes \<open>0, \<dots>, K - 1\<close> and every example has probability 1 for its own label and 0
  elsewhere, \<open>compute_confident_joint\<close> (with its default thresholds) returns the diagonal
  \<open>K\<close> by \<open>K\<close> matrix whose entry \<open>(k, k)\<close> is the number of examples labelled \<open>k\<close>, and
  \<open>num_label_errors\<close> returns 0.
\<close>

theorem noiseless_joint_is_diagonal:
  assumes "0 < K" and "set s = {0..<K}"
  shows "compute_confident_joint exact s (map (one_hot K) s) None None
           = Inr (tab K (\<lambda>i j. if i = j then int (count_list s i) else 0))
       \<and> num_label_errors exact s (map (one_hot K) s) None = Inr 0"
  using noiseless_joint [OF assms(2,1)] noiseless_errors [OF assms(2,1)] by simp

theorem noiseless_joint_is_diagonal_witness:
  "0 < (3::nat) \<and> set [0, 0, 1, 1, 2, 2] = {0..<3::nat}
   \<and> compute_confident_joint exact [0, 0, 1, 1, 2, 2] (map (one_hot 3) [0, 0, 1, 1, 2, 2]) None None
       = Inr [[2, 0, 0], [0, 2, 0], [0, 0, 2]]
   \<and> num_label_errors exact [0, 0, 1, 1, 2, 2] (map (one_hot 3) [0, 0, 1, 1, 2, 2]) None = Inr 0"
proof -
  have p: "0 < (3::nat)" by simp
  have a: "set [0, 0, 1, 1, 2, 2] = {0..<3::nat}" by auto
  have t: "tab 3 (\<lambda>i j. if i = j then int (count_list [0, 0, 1, 1, 2, 2] i) else 0)
             = [[2, 0, 0], [0, 2, 0], [0, 0, 2]]"
    by code_simp
  note w = noiseless_joint_is_diagonal [OF p a]
  from w have j: "compute_confident_joint exact [0, 0, 1, 1, 2, 2]
      (map (one_hot 3) [0, 0, 1, 1, 2, 2]) None None = Inr [[2, 0, 0], [0, 2, 0], [0, 0, 2]]"
    unfolding t by (rule conjunct1)
  from w have e: "num_label_errors exact [0, 0, 1, 1, 2, 2] (map (one_hot 3) [0, 0, 1, 1, 2, 2])
      None = Inr 0"
    by (rule conjunct2)
  from p a j e show ?thesis by blast
qed

subsection \<open>\<open>estimate_joint\<close> with more than one class\<close>

text \<open>
  C2. With the labels \<open>[0, 1]\<close> and the probabilities \<open>[[1, 0], [0, 1]]\<close> the calibration
  succeeds and returns the 2 by 2 identity matrix, and \<open>estimate_joint\<close> returns no matrix:
  \<open>float\<close> is applied to the array of the two column sums and raises \<open>TypeError\<close>. This is
  so in doubles and in exact arithmetic.
\<close>

theorem estimate_joint_two_classes_fails:
  "calibrate_confident_joint doubles [[1, 0], [0, 1::int]] [0, 1] [[1, 0], [0, 1]]
     = Inr [[Some 1, Some 0], [Some 0, Some 1]]
   \<and> estimate_joint doubles [[1, 0], [0, 1::int]] [0, 1] [[1, 0], [0, 1]] = Inl TypeError
   \<and> calibrate_confident_joint exact [[1, 0], [0, 1::int]] [0, 1] [[1, 0], [0, 1]]
     = Inr [[Some 1, Some 0], [Some 0, Some 1]]
   \<and> estimate_joint exact [[1, 0], [0, 1::int]] [0, 1] [[1, 0], [0, 1]] = Inl TypeError"
  by code_simp

subsection \<open>No confident example\<close>

text \<open>
  C10. With the labels \<open>[0, 1]\<close>, the probabilities \<open>[[0.1, 0.2], [0.3, 0.1]]\<close> and the
  thresholds \<open>[0.9, 0.9]\<close> no example reaches a threshold, and \<open>compute_confident_joint\<close>
  returns the matrix with no rows and no columns, which the confusion matrix of two empty
  label arrays is, not the 2 by 2 matrix of zeros. This is so in doubles and in exact
  arithmetic.
\<close>

theorem no_confident_example_gives_empty_matrix:
  "compute_confident_joint doubles [0, 1] (float_rows [[1/10, 2/10], [3/10, 1/10]]) (Some 2)
     (Some (map Some (floats [9/10, 9/10]))) = Inr []
   \<and> compute_confident_joint exact [0, 1] [[1/10, 2/10], [3/10, 1/10]] (Some 2)
     (Some [Some (9/10), Some (9/10)]) = Inr []"
  by code_simp

subsection \<open>The joint is indexed by the labels that occur among the confident examples\<close>

text \<open>
  C3. With the labels \<open>[0, 1]\<close>, the probabilities \<open>[[0.1, 0.1], [0.1, 0.9]]\<close> and the
  thresholds \<open>[0.5, 0.5]\<close> the first example has no confident bin and the second has one,
  class 1: the only pair is (observed 1, guessed 1). The joint returned is the 1 by 1 matrix
  \<open>[[1]]\<close>, whose row 0 and column 0 stand for label 1, not a 2 by 2 matrix with the count
  in row 1 and column 1. This is so in doubles and in exact arithmetic.
\<close>

theorem joint_indexed_by_present_labels:
  "confident_pairs [0, 1] (float_rows [[1/10, 1/10], [1/10, 9/10]]) (map Some (floats [1/2, 1/2]))
     = [(1, 1)]
   \<and> compute_confident_joint doubles [0, 1] (float_rows [[1/10, 1/10], [1/10, 9/10]]) (Some 2)
        (Some (map Some (floats [1/2, 1/2]))) = Inr [[1]]
   \<and> confident_pairs [0, 1] [[1/10, 1/10], [1/10, 9/10]] [Some (1/2), Some (1/2)] = [(1, 1)]
   \<and> compute_confident_joint exact [0, 1] [[1/10, 1/10], [1/10, 9/10]] (Some 2)
        (Some [Some (1/2), Some (1/2)]) = Inr [[1]]"
  by code_simp

subsection \<open>The number of label errors is truncated, not rounded\<close>

text \<open>
  C8, counterexample. For five labels and the joint \<open>[[1, 0], [3, 0]]\<close> the normalized
  joint has trace 1/4, so \<open>(1 - trace) * N\<close> is 3.75, in doubles as in exact arithmetic:
  \<open>num_label_errors\<close> returns 3, and rounding gives 4.
\<close>

theorem num_label_errors_rounding_counterexample:
  "num_label_errors doubles [0, 1, 1, 1, 1]
      (float_rows [[9/10, 1/10], [8/10, 2/10], [7/10, 3/10], [6/10, 4/10], [1/10, 2/10]])
      (Some (FloatJoint [[1, 0], [3, 0]])) = Inr 3
   \<and> num_label_errors exact [0, 1, 1, 1, 1]
      [[9/10, 1/10], [8/10, 2/10], [7/10, 3/10], [6/10, 4/10], [1/10, 2/10]]
      (Some (FloatJoint [[1, 0], [3, 0]])) = Inr 3
   \<and> rounded_errors [0, 1, 1, 1, 1] [[1, 0], [3, 0]] = 4"
  by code_simp

text \<open>
  C8, amended. \<open>num_label_errors\<close> returns the float \<open>(1 - trace(joint / sum(joint))) * N\<close>,
  computed operation by operation in the arithmetic of the program, truncated towards zero,
  which is what \<open>int\<close> does to a float, and raises when the product is not finite. The
  joint is the supplied array, of floats or of integers (whose sum wraps around at 64 bits),
  or, when none is supplied, the joint that \<open>estimate_confident_joint_from_probabilities\<close>
  returns for the labels and the probabilities, whose errors are passed on.
\<close>

theorem num_label_errors_truncates:
  "num_label_errors ar labels psx (Some (FloatJoint m))
     = int_of_float (error_product ar (length labels) (fl_matrix m)
                       (summ ar (concat (fl_matrix m))))
   \<and> num_label_errors ar labels psx (Some (IntJoint n))
     = int_of_float (error_product ar (length labels) (fl_of_int_matrix ar n)
                       (fl_of_int ar (wrap_int64 (sum_list (concat n)))))
   \<and> num_label_errors ar labels psx None
     = (case estimate_confident_joint_from_probabilities ar labels psx NoThresholds
               (FBool False) False no_arrays of
          Inl e \<Rightarrow> Inl e
        | Inr (Final cj, h) \<Rightarrow>
            int_of_float (error_product ar (length labels) cj (summ ar (concat cj)))
        | Inr (Trace cjs, h) \<Rightarrow> Inl TypeError)"
  by (simp add: num_label_errors_product joint_and_sum_def fl_matrix_def
      split: sum.splits prod.splits cj_result.splits)

text \<open>In doubles the product can fall just below the integer that it is in exact
  arithmetic: for five labels and the joint \<open>[[0, 0], [1, 4]]\<close> the exact product is 1,
  and the program returns 0.\<close>

lemma num_label_errors_below_exact_product:
  "num_label_errors doubles [0, 1, 1, 1, 1] [] (Some (FloatJoint [[0, 0], [1, 4]])) = Inr 0
   \<and> num_label_errors exact [0, 1, 1, 1, 1] [] (Some (FloatJoint [[0, 0], [1, 4]])) = Inr 1"
  by code_simp

text \<open>In exact arithmetic, for a rectangular joint of floats whose sum is not zero, the
  result is the exact product, truncated.\<close>

lemma num_label_errors_exact:
  assumes rect: "\<forall>r \<in> set cj. length r = ncols cj"
    and nz: "sum_list (concat cj) \<noteq> 0"
  shows "num_label_errors exact labels psx (Some (FloatJoint cj))
           = Inr (py_int ((1 - rat_trace (normalized_joint cj)) * of_nat (length labels)))"
  using error_product_exact [OF rect nz, of "length labels"]
  by (simp add: num_label_errors_product joint_and_sum_def summ_exact int_of_float_def
      fl_matrix_def)

subsection \<open>The loops of \<open>converge_estimates\<close>\<close>

lemma fold_const_funpow: "fold (\<lambda>i. f) [0..<n] = f ^^ n"
  by (induction n) simp_all

text \<open>
  C6. \<open>converge_estimates\<close> applies the outer iteration \<open>noise_matrix_iterations\<close> times
  (3 by default) to \<open>(py, noise_matrix, inverse_noise_matrix)\<close>; an outer iteration applies the
  inner iteration \<open>inv_noise_matrix_iterations\<close> times (5 by default), each computing the
  inverse noise matrix and then \<open>py\<close>, and only then computes the noise matrix, once; the
  three resulting quantities are returned.
\<close>

theorem converge_estimates_iterations:
  "converge_estimates cinv cpy cnm ps py nm im (int n_inner) (int n_outer)
     = (outer_iteration cinv cpy cnm ps n_inner ^^ n_outer) (py, nm, im)
   \<and> converge_estimates_default cinv cpy cnm ps py nm im
     = (outer_iteration cinv cpy cnm ps 5 ^^ 3) (py, nm, im)"
proof -
  have gen: "converge_estimates cinv cpy cnm ps py nm im (int a) (int b)
     = (outer_iteration cinv cpy cnm ps a ^^ b) (py, nm, im)" for a b
    unfolding converge_estimates_def py_range_def nat_int
    by (simp add: fold_const_funpow outer_iteration_def inner_iteration_def Let_def)
  have "converge_estimates_default cinv cpy cnm ps py nm im
     = converge_estimates cinv cpy cnm ps py nm im (int 5) (int 3)"
    by (simp add: converge_estimates_default_def)
  also have "\<dots> = (outer_iteration cinv cpy cnm ps 5 ^^ 3) (py, nm, im)"
    by (rule gen)
  finally show ?thesis using gen [of n_inner n_outer] by simp
qed

subsection \<open>A pass of the adaptive loop returns the calibration of the default joint\<close>

text \<open>
  C5. With the labels \<open>[0, 1, 1]\<close>, the probabilities \<open>[[0.6, 0.4], [0.7, 0.3], [0.2, 0.8]]\<close>,
  the thresholds \<open>[0.65, 0.25]\<close> and \<open>force_ps = True\<close>, the confident joint for the current
  thresholds of the first pass is \<open>[[0, 1], [1, 1]]\<close>, and the calibration of that matrix
  is \<open>[[0, 1], [1, 1]]\<close>. The five passes return \<open>[[1, 0], [1, 1]]\<close> each: the calibration of
  the joint for the default thresholds, which \<open>calibrate_confident_joint\<close> computes anew
  whatever it is passed.
\<close>

theorem pass_calibrates_default_joint:
  "compute_confident_joint doubles [0, 1, 1]
       (float_rows [[6/10, 4/10], [7/10, 3/10], [2/10, 8/10]]) (Some 2)
       (Some (map Some (floats [65/100, 25/100]))) = Inr [[0, 1], [1, 1]]
   \<and> calibration doubles [[0, 1], [1, 1]] [0, 1, 1] = Inr [[Some 0, Some 1], [Some 1, Some 1]]
   \<and> map_sum id fst
        (estimate_confident_joint_from_probabilities doubles [0, 1, 1]
           (float_rows [[6/10, 4/10], [7/10, 3/10], [2/10, 8/10]])
           (ListThresholds (map PyFloat (floats [65/100, 25/100]))) (FBool True) True no_arrays)
       = Inr (Trace (replicate 5 [[Some 1, Some 0], [Some 1, Some 1]]))"
  by code_simp

text \<open>Thresholds given as a list of integers make an array of integers, and the first
  update raises.\<close>

lemma integer_thresholds_raise:
  "map_sum id fst
     (estimate_confident_joint_from_probabilities doubles [0, 1, 1]
        (float_rows [[6/10, 4/10], [7/10, 3/10], [2/10, 8/10]])
        (ListThresholds [PyInt 0, PyInt 1]) (FBool True) False no_arrays)
     = Inl UFuncTypeError"
  by code_simp

subsection \<open>The array of thresholds of the caller is written\<close>

text \<open>
  C9. The array of the caller is at address 0 of the store and holds \<open>[0.25, 0.25]\<close>. After
  a call with \<open>force_ps = True\<close>, for eight labels and their probabilities, it holds
  \<open>[0.25, 0.25 + 5 * 2 ^ -54]\<close>: \<open>np.asarray\<close> returns the array itself and the five updates
  write into it. No other array is made. When the same thresholds are given as a list, the
  updates write into the new array that \<open>np.asarray\<close> makes of the list.
\<close>

theorem caller_thresholds_array_rewritten:
  "map_sum id (\<lambda>(res, h). (cells h 0, free h))
     (estimate_confident_joint_from_probabilities doubles [0, 1, 1, 1, 1, 1, 1, 1]
        (float_rows [[3/4, 1/4], [1/8, 7/8], [1/8, 7/8], [1/8, 7/8], [1/8, 7/8], [7/8, 1/8],
                     [1/8, 1/8], [1/8, 1/8]])
        (ArrayThresholds 0) (FBool True) False
        \<lparr>cells = (\<lambda>a. (Float64, []))(0 := float_array [1/4, 1/4]), free = 1\<rparr>)
   = Inr ((Float64, [Some (1/4), Some (1/4 + 5 / 2 ^ 54)]), 1)"
  by code_simp

subsection \<open>The calibration and the noiseless joint in doubles, on examples\<close>

lemma calibrate_doubles_example:
  "calibrate_confident_joint doubles () [0, 1, 1]
      (float_rows [[6/10, 4/10], [7/10, 3/10], [2/10, 8/10]])
     = Inr [[Some 1, Some 0], [Some 1, Some 1]]"
  by code_simp

lemma noiseless_doubles_example:
  "compute_confident_joint doubles [0, 0, 1, 1, 2, 2] (map (one_hot 3) [0, 0, 1, 1, 2, 2]) None None
       = Inr [[2, 0, 0], [0, 2, 0], [0, 0, 2]]
   \<and> num_label_errors doubles [0, 0, 1, 1, 2, 2] (map (one_hot 3) [0, 0, 1, 1, 2, 2]) None = Inr 0"
  by code_simp

end
